theory Spec2Isabelle
  imports Main "HOL-Library.Sublist"
begin

section \<open>The AST node model consumed by the inference pass\<close>

text \<open>
  The pass of \<^verbatim>\<open>src/parser/infer.cc\<close> works on the AST of the parser. A
  \<^verbatim>\<open>Location\<close> is an interned name: two locations are equal iff they
  were interned from equal strings, so a location is the string itself. A
  \<^verbatim>\<open>Node<T>\<close> is a shared pointer that may be null, hence an
  \<open>option\<close>; a \<^verbatim>\<open>List<T>\<close> is a vector of such pointers.
\<close>

type_synonym Location = string

datatype Kind =
    KTypeRef | KIsectType | KUnionType | KTupleType | KFunctionType | KThrowType
  | KImm | KMut | KIso | KInferType | KLookupRef
  | KFree | KRef | KOftype | KThrow | KAssign | KTuple | KSelect
  | KNew | KObjectLiteral | KMatch | KWhen | KEscapedString
  | KInt | KFloat | KBool | KLambda | KLet | KVar
  | KParam | KField | KOther nat

datatype Type =
    TypeRef Location "TypeName list"
  | IsectType Location "Type option list"
  | UnionType Location "Type option list"
  | TupleType Location "Type option list"
  | FunctionType Location "Type option" "Type option"
  | ThrowType Location "Type option"
  | Imm Location
  | Mut Location
  | Iso Location
  | InferType Location nat
  | LookupRef Location nat "(TypeParam option \<times> Type option) list" "Type option"
and TypeName = TypeName Location "Type option list"
and TypeParam = TypeParam Location "Type option"

text \<open>
  In \<open>LookupRef loc def subs self\<close> the substitution \<open>subs\<close> is listed in
  the order in which the handler iterates over it; the first component of a
  pair is what \<^verbatim>\<open>wparam.lock()\<close> returns, \<open>None\<close> for a weak
  reference whose parameter is gone. In \<open>TypeParam loc upper\<close> the second
  field is \<^verbatim>\<open>param->upper\<close>.
\<close>

fun t_location :: "Type \<Rightarrow> Location" where
  "t_location (TypeRef l _) = l"
| "t_location (IsectType l _) = l"
| "t_location (UnionType l _) = l"
| "t_location (TupleType l _) = l"
| "t_location (FunctionType l _ _) = l"
| "t_location (ThrowType l _) = l"
| "t_location (Imm l) = l"
| "t_location (Mut l) = l"
| "t_location (Iso l) = l"
| "t_location (InferType l _) = l"
| "t_location (LookupRef l _ _ _) = l"

fun t_kind :: "Type \<Rightarrow> Kind" where
  "t_kind (TypeRef _ _) = KTypeRef"
| "t_kind (IsectType _ _) = KIsectType"
| "t_kind (UnionType _ _) = KUnionType"
| "t_kind (TupleType _ _) = KTupleType"
| "t_kind (FunctionType _ _ _) = KFunctionType"
| "t_kind (ThrowType _ _) = KThrowType"
| "t_kind (Imm _) = KImm"
| "t_kind (Mut _) = KMut"
| "t_kind (Iso _) = KIso"
| "t_kind (InferType _ _) = KInferType"
| "t_kind (LookupRef _ _ _ _) = KLookupRef"

text \<open>
  A local is a \<^verbatim>\<open>Let\<close> or a \<^verbatim>\<open>Var\<close> node, which
  \<^verbatim>\<open>g\<close> reads as a \<^verbatim>\<open>Let\<close>: its kind, its name, its type and
  the \<^verbatim>\<open>assigned\<close> flag.
\<close>

record Local =
  l_kind :: Kind
  l_location :: Location
  l_type :: "Type option"
  l_assigned :: bool

text \<open>
  A child expression is only ever used through its location and, in
  \<^verbatim>\<open>post(Ref&)\<close>, through pointer equality; \<open>e_addr\<close> is the
  identity of the node.
\<close>

record Expr =
  e_addr :: nat
  e_location :: Location

text \<open>
  The \<^verbatim>\<open>Select\<close> node. The handler takes it by reference; further
  fields that the declaration in \<^verbatim>\<open>ast.h\<close> may have are the
  extension part of the record.
\<close>

record Select =
  sel_location :: Location
  sel_expr :: "Expr option"
  sel_typeref :: "Location \<times> TypeName list"
  sel_args :: "Expr option"

text \<open>
  Modelled from the spec: the dispatch annotation of a call site ("every call
  site is annotated as static or dynamic dispatch"). The declaration of
  \<^verbatim>\<open>Select\<close> (\<^verbatim>\<open>ast.h\<close>) is not part of the sources at hand;
  \<open>None\<close> is a call site that carries no annotation.
\<close>

datatype Dispatch = StaticDispatch | DynamicDispatch

record AnnotatedSelect = Select +
  sel_dispatch :: "Dispatch option"

record LambdaNode =
  lam_location :: Location
  lam_typeparams :: "TypeParam list"
  lam_params :: "Location list"
  lam_result :: "Type option"

text \<open>
  The nodes that the handlers see, each with the fields that the handlers
  read. \<open>TypeNode\<close> is a type met in the tree; \<open>OtherNode k\<close> is a node of a
  kind \<open>k\<close> that has no constructor of its own here.
\<close>

datatype Node =
    Free Location
  | Ref Location
  | Oftype Expr "Type option"
  | Throw Expr
  | Assign Expr Expr
  | Tuple Location "Expr list"
  | SelectNode Select
  | New
  | ObjectLiteral
  | Match
  | When
  | EscapedString
  | IntNode Location
  | FloatNode Location
  | BoolNode Location
  | Lambda LambdaNode
  | Field "Type option"
  | Param
  | TypeNode Type
  | OtherNode Kind

fun kind :: "Node \<Rightarrow> Kind" where
  "kind (Free _) = KFree"
| "kind (Ref _) = KRef"
| "kind (Oftype _ _) = KOftype"
| "kind (Throw _) = KThrow"
| "kind (Assign _ _) = KAssign"
| "kind (Tuple _ _) = KTuple"
| "kind (SelectNode _) = KSelect"
| "kind New = KNew"
| "kind ObjectLiteral = KObjectLiteral"
| "kind Match = KMatch"
| "kind When = KWhen"
| "kind EscapedString = KEscapedString"
| "kind (IntNode _) = KInt"
| "kind (FloatNode _) = KFloat"
| "kind (BoolNode _) = KBool"
| "kind (Lambda _) = KLambda"
| "kind (Field _) = KField"
| "kind Param = KParam"
| "kind (TypeNode t) = t_kind t"
| "kind (OtherNode k) = k"

section \<open>The pass framework and the collaborators\<close>

text \<open>
  A diagnostic is what one \<^verbatim>\<open>error() << ...\<close> statement writes: the
  locations, the literal texts and the rendered source texts
  (\<^verbatim>\<open>text(loc)\<close>) in the order of the \<^verbatim>\<open><<\<close> chain.
\<close>

datatype Item = Loc Location | Str string | Text Location

type_synonym Diagnostic = "Item list"

text \<open>
  Modelled from the spec: the state of \<^verbatim>\<open>Pass<F>\<close> (\<^verbatim>\<open>pass.h\<close>
  is not part of the sources at hand). The pass holds the flag that its
  conversion to \<^verbatim>\<open>bool\<close> returns ("no errors were recorded") and the
  error stream; \<^verbatim>\<open>error()\<close> records that an error happened and hands
  out the stream, to which the handler then writes one diagnostic.
\<close>

record pass =
  ok :: bool
  out :: "Diagnostic list"

definition error :: "Diagnostic \<Rightarrow> 'a pass_scheme \<Rightarrow> 'a pass_scheme" where
  "error d p = p\<lparr>ok := False, out := out p @ [d]\<rparr>"

text \<open>
  The calls that the visitor makes to the solver: \<^verbatim>\<open>subtype(a, b)\<close>,
  the constraint \<open>a <: b\<close>, and \<^verbatim>\<open>subtype.dynamic(find, call)\<close>.
\<close>

datatype Call = Subtype "Type option" "Type option" | Dynamic "Type list" Type

text \<open>
  The state of \<^verbatim>\<open>Infer\<close>: the pass state, the locals of every scope
  (the \<^verbatim>\<open>Let\<close> and \<^verbatim>\<open>Var\<close> nodes that the symbol tables point
  to, which the handlers mutate in place), the state of the member
  \<^verbatim>\<open>subtype\<close> and the sequence of calls made to it so far.
  Modelled from the spec: the symbol table (not part of the sources at hand);
  \<open>symtab st sc name\<close> is the local that \<^verbatim>\<open>get_scope(name)\<close> returns
  on the symbol table of the scope \<open>sc\<close>, \<open>None\<close> for a null pointer.
\<close>

record 's infer = pass +
  symtab :: "nat \<Rightarrow> Location \<rightharpoonup> Local"
  subtype_st :: 's
  calls :: "Call list"

text \<open>
  The solver (\<^verbatim>\<open>subtype.h\<close>), the lookup engine (\<^verbatim>\<open>lookup.h\<close>),
  \<^verbatim>\<open>dnf::throwtype\<close>, \<^verbatim>\<open>receiver_type\<close>,
  \<^verbatim>\<open>function_type\<close> and \<^verbatim>\<open>kindname\<close> are not part of the
  sources at hand: they are parameters of the model. The solver works on its
  own state \<open>'s\<close>, which holds its bounds and its own error flag; the lookup
  engine reads the scope it is given and the bounds. Modelled from the spec:
  a lookup reports failure by its result only (an absent node, an empty list).
\<close>

record 's collab =
  subtype_fn :: "'s \<Rightarrow> Type option \<Rightarrow> Type option \<Rightarrow> bool \<times> 's"
  dynamic_fn :: "'s \<Rightarrow> Type list \<Rightarrow> Type \<Rightarrow> bool \<times> 's"
  subtype_ok :: "'s \<Rightarrow> bool"
  subtype_init :: 's
  lookup_typeref :: "'s \<Rightarrow> nat \<Rightarrow> Type \<Rightarrow> Type option"
  lookup_member :: "'s \<Rightarrow> Type option \<Rightarrow> TypeName \<Rightarrow> Type list"
  receiver_type :: "Type option \<Rightarrow> Type option"
  throwtype :: "Type option \<Rightarrow> Type option"
  function_type :: "LambdaNode \<Rightarrow> Type option"
  kindname :: "Kind \<Rightarrow> string"

definition subtype :: "'s collab \<Rightarrow> Type option \<Rightarrow> Type option \<Rightarrow> 's infer \<Rightarrow> bool \<times> 's infer" where
  "subtype c a b st =
     (let r = subtype_fn c (subtype_st st) a b
      in (fst r, st\<lparr>subtype_st := snd r, calls := calls st @ [Subtype a b]\<rparr>))"

definition dynamic :: "'s collab \<Rightarrow> Type list \<Rightarrow> Type \<Rightarrow> 's infer \<Rightarrow> bool \<times> 's infer" where
  "dynamic c found call st =
     (let r = dynamic_fn c (subtype_st st) found call
      in (fst r, st\<lparr>subtype_st := snd r, calls := calls st @ [Dynamic found call]\<rparr>))"

text \<open>
  Modelled from the spec: what the pass framework gives a handler. \<open>stack\<close>
  holds the ancestors of the node being visited, the nearest first,
  \<open>current\<close> is the identity of the node being visited and \<open>symbols\<close> the
  scope whose symbol table \<^verbatim>\<open>symbols()\<close> returns. \<^verbatim>\<open>parent()\<close>
  is the lexical parent, \<^verbatim>\<open>parent<Assign>()\<close> and its like the nearest
  enclosing node of that kind; each is null when there is none.
\<close>

record ctx =
  stack :: "Node list"
  current :: nat
  symbols :: nat

definition parent :: "ctx \<Rightarrow> Node option" where
  "parent cx = (case stack cx of [] \<Rightarrow> None | p # _ \<Rightarrow> Some p)"

fun parent_Assign :: "Node list \<Rightarrow> (Expr \<times> Expr) option" where
  "parent_Assign [] = None"
| "parent_Assign (Assign l r # _) = Some (l, r)"
| "parent_Assign (_ # ps) = parent_Assign ps"

fun parent_Lambda :: "Node list \<Rightarrow> LambdaNode option" where
  "parent_Lambda [] = None"
| "parent_Lambda (Lambda lam # _) = Some lam"
| "parent_Lambda (_ # ps) = parent_Lambda ps"

section \<open>The inference visitor\<close>

text \<open>
  In every function below the result \<open>None\<close> is the dereference of a null
  pointer or a failed \<^verbatim>\<open>assert\<close>: the program does not return.
\<close>

definition name_imm :: Location where "name_imm = ''imm''"
definition name_bool :: Location where "name_bool = ''Bool''"
definition name_int :: Location where "name_int = ''Integer''"
definition name_float :: Location where "name_float = ''Float''"

definition type_imm :: Type where
  "type_imm = Imm name_imm"

definition make_constant_type :: "'s collab \<Rightarrow> ctx \<Rightarrow> 's infer \<Rightarrow> Location \<Rightarrow> Type option" where
  "make_constant_type c cx st name =
     (let n = TypeName name [];
          t = TypeRef name [n]
      in if lookup_typeref c (subtype_st st) (symbols cx) t = None then None
         else Some (IsectType name [Some t, Some type_imm]))"

definition g :: "ctx \<Rightarrow> 's infer \<Rightarrow> Location \<Rightarrow> Local option" where
  "g cx st name = symtab st (symbols cx) name"

definition lhs :: "ctx \<Rightarrow> Location option" where
  "lhs cx = (case parent_Assign (stack cx) of None \<Rightarrow> None
             | Some (l, r) \<Rightarrow> Some (e_location l))"

text \<open>The first argument is \<^verbatim>\<open>to->types\<close>, the result its new value.\<close>

fun unpack_type :: "Type option list \<Rightarrow> Type option \<Rightarrow> Type option list" where
  "unpack_type to None = to"
| "unpack_type to (Some (TupleType l ts)) = to @ ts"
| "unpack_type to (Some t) = to @ [Some t]"

text \<open>
  \<open>call_left\<close> is the chain of conditionals of \<^verbatim>\<open>call_type\<close> that
  sets \<^verbatim>\<open>f->left\<close>; with neither operand it stays null.
\<close>

definition call_left :: "ctx \<Rightarrow> 's infer \<Rightarrow> Expr option \<Rightarrow> Expr option \<Rightarrow> Type option option" where
  "call_left cx st left right =
     (case (left, right) of
        (Some l, None) \<Rightarrow>
          (case g cx st (e_location l) of None \<Rightarrow> None | Some ll \<Rightarrow> Some (l_type ll))
      | (None, Some r) \<Rightarrow>
          (case g cx st (e_location r) of None \<Rightarrow> None | Some rl \<Rightarrow> Some (l_type rl))
      | (Some l, Some r) \<Rightarrow>
          (case g cx st (e_location l) of None \<Rightarrow> None
           | Some ll \<Rightarrow>
            (case g cx st (e_location r) of None \<Rightarrow> None
             | Some rl \<Rightarrow>
              (case l_type ll of None \<Rightarrow> None
               | Some lt \<Rightarrow>
                (case l_type rl of None \<Rightarrow> None
                 | Some rt \<Rightarrow>
                    Some (Some (TupleType (t_location lt)
                      (unpack_type (unpack_type [] (Some lt)) (Some rt))))))))
      | (None, None) \<Rightarrow> Some None)"

definition call_type :: "ctx \<Rightarrow> 's infer \<Rightarrow> Expr option \<Rightarrow> Expr option \<Rightarrow> Type option" where
  "call_type cx st left right =
     (case call_left cx st left right of None \<Rightarrow> None
      | Some fl \<Rightarrow>
       (case lhs cx of None \<Rightarrow> None
        | Some n \<Rightarrow>
         (case g cx st n of None \<Rightarrow> None
          | Some l \<Rightarrow> Some (FunctionType [] fl (l_type l)))))"

definition post_Free :: "ctx \<Rightarrow> Location \<Rightarrow> 's infer \<Rightarrow> 's infer option" where
  "post_Free cx fr st =
     (case g cx st fr of None \<Rightarrow> None
      | Some l \<Rightarrow>
          if \<not> l_assigned l
          then Some (error [Loc fr,
                 Str ''Free variables can't be captured if they haven't been assigned to.'',
                 Text fr, Loc (l_location l), Str ''Definition is here.'',
                 Text (l_location l)] st)
          else Some st)"

fun post_LookupRef :: "'s collab \<Rightarrow> (TypeParam option \<times> Type option) list \<Rightarrow> 's infer \<Rightarrow> 's infer" where
  "post_LookupRef c [] st = st"
| "post_LookupRef c ((None, arg) # subs) st = post_LookupRef c subs st"
| "post_LookupRef c ((Some (TypeParam l upper), arg) # subs) st =
     post_LookupRef c subs (snd (subtype c arg upper st))"

definition use_before_assign :: "Location \<Rightarrow> Diagnostic" where
  "use_before_assign ref = [Loc ref, Str ''Variable used before assignment'', Text ref]"

definition post_Ref_check :: "Location \<Rightarrow> Local \<Rightarrow> 's infer \<Rightarrow> 's infer" where
  "post_Ref_check ref l st =
     (if \<not> l_assigned l then error (use_before_assign ref) st else st)"

definition post_Ref :: "'s collab \<Rightarrow> ctx \<Rightarrow> Location \<Rightarrow> 's infer \<Rightarrow> 's infer option" where
  "post_Ref c cx ref st =
     (case parent cx of None \<Rightarrow> None
      | Some p \<Rightarrow>
          if kind p = KOftype then Some st
          else
            (case p of
               Assign left right \<Rightarrow>
                 if e_addr left = current cx then Some st
                 else
                   (case g cx st ref of None \<Rightarrow> None
                    | Some l \<Rightarrow>
                     (case g cx st (e_location left) of None \<Rightarrow> None
                      | Some ll \<Rightarrow>
                          Some (post_Ref_check ref l
                            (snd (subtype c (l_type l) (l_type ll) st)))))
             | Lambda lam \<Rightarrow>
                 (case g cx st ref of None \<Rightarrow> None
                  | Some l \<Rightarrow>
                      let r = subtype c (l_type l) (lam_result lam) st
                      in if \<not> fst r
                         then (case lam_result lam of None \<Rightarrow> None
                               | Some type \<Rightarrow>
                                   Some (post_Ref_check ref l
                                     (error [Loc ref,
                                        Str ''The return value is not a subtype of the result type.'',
                                        Text ref, Loc (t_location type),
                                        Str ''The result type is here.'',
                                        Text (t_location type)] (snd r))))
                         else Some (post_Ref_check ref l (snd r)))
             | _ \<Rightarrow>
                 (case g cx st ref of None \<Rightarrow> None
                  | Some l \<Rightarrow> Some (post_Ref_check ref l st))))"

definition post_Oftype :: "'s collab \<Rightarrow> ctx \<Rightarrow> Expr \<Rightarrow> Type option \<Rightarrow> 's infer \<Rightarrow> 's infer option" where
  "post_Oftype c cx expr type st =
     (case g cx st (e_location expr) of None \<Rightarrow> None
      | Some l \<Rightarrow> Some (snd (subtype c (l_type l) type st)))"

definition post_Throw :: "'s collab \<Rightarrow> ctx \<Rightarrow> Expr \<Rightarrow> 's infer \<Rightarrow> 's infer option" where
  "post_Throw c cx expr st =
     (case g cx st (e_location expr) of None \<Rightarrow> None
      | Some l \<Rightarrow>
          let t = throwtype c (l_type l)
          in (case parent_Lambda (stack cx) of None \<Rightarrow> None
              | Some lam \<Rightarrow> Some (snd (subtype c t (lam_result lam) st))))"

definition already_assigned :: "Expr \<Rightarrow> Expr \<Rightarrow> Diagnostic" where
  "already_assigned left right =
     [Loc (e_location right), Str ''This expression can't be assigned'',
      Text (e_location right), Loc (e_location left),
      Str ''This local has already been assigned to'', Text (e_location left)]"

definition post_Assign :: "ctx \<Rightarrow> Expr \<Rightarrow> Expr \<Rightarrow> 's infer \<Rightarrow> 's infer option" where
  "post_Assign cx left right st =
     (case g cx st (e_location left) of None \<Rightarrow> None
      | Some l \<Rightarrow>
          if \<not> l_assigned l \<or> l_kind l = KVar
          then Some (st\<lparr>symtab := (symtab st)(symbols cx :=
                 (symtab st (symbols cx))(e_location left \<mapsto> l\<lparr>l_assigned := True\<rparr>))\<rparr>)
          else Some (error (already_assigned left right) st))"

fun tuple_types :: "ctx \<Rightarrow> 's infer \<Rightarrow> Expr list \<Rightarrow> Type option list option" where
  "tuple_types cx st [] = Some []"
| "tuple_types cx st (e # es) =
     (case g cx st (e_location e) of None \<Rightarrow> None
      | Some l \<Rightarrow>
         (case tuple_types cx st es of None \<Rightarrow> None
          | Some ts \<Rightarrow> Some (l_type l # ts)))"

definition post_Tuple :: "ctx \<Rightarrow> Location \<Rightarrow> Expr list \<Rightarrow> 's infer \<Rightarrow> 's infer option" where
  "post_Tuple cx loc seq st =
     (case tuple_types cx st seq of None \<Rightarrow> None
      | Some ts \<Rightarrow>
         (case lhs cx of None \<Rightarrow> None
          | Some n \<Rightarrow>
             (case g cx st n of None \<Rightarrow> None
              | Some l \<Rightarrow>
                  Some (st\<lparr>symtab := (symtab st)(symbols cx :=
                    (symtab st (symbols cx))(n \<mapsto> l\<lparr>l_type := Some (TupleType loc ts)\<rparr>))\<rparr>))))"

fun f_left :: "Type \<Rightarrow> Type option" where
  "f_left (FunctionType l left right) = left"
| "f_left _ = None"

text \<open>
  \<^verbatim>\<open>post(Select&)\<close>, in the two blocks that its comments head.
  \<open>Select_dynamic\<close> is the block "Dynamic dispatch": its first component
  tells whether the handler returns there. \<open>call\<close> comes from
  \<^verbatim>\<open>make_shared\<close> and is never null, so the test
  \<^verbatim>\<open>call && call->left\<close> is the test of \<^verbatim>\<open>call->left\<close>.
  \<open>Select_static\<close> is the rest of the body, from "Static dispatch" on.
  \<open>post_Select\<close> returns the node as the handler leaves it.
\<close>

definition Select_dynamic ::
  "'s collab \<Rightarrow> 'a Select_scheme \<Rightarrow> Type \<Rightarrow> 's infer \<Rightarrow> bool \<times> 's infer" where
  "Select_dynamic c sel call st =
     (if f_left call \<noteq> None \<and> length (snd (sel_typeref sel)) = 1
      then let receiver = receiver_type c (f_left call);
               found = lookup_member c (subtype_st st) receiver (hd (snd (sel_typeref sel)))
           in dynamic c found call st
      else (False, st))"

definition couldnt_find :: "Location \<Rightarrow> Diagnostic" where
  "couldnt_find loc = [Loc loc, Str ''Couldn't find this function.'', Text loc]"

definition expected_function :: "string \<Rightarrow> Location \<Rightarrow> Diagnostic" where
  "expected_function kn loc = [Loc loc, Str ''Expected a function but found '', Str kn, Text loc]"

definition Select_static ::
  "'s collab \<Rightarrow> ctx \<Rightarrow> 'a Select_scheme \<Rightarrow> Type \<Rightarrow> 's infer \<Rightarrow> 's infer" where
  "Select_static c cx sel call st =
     (case lookup_typeref c (subtype_st st) (symbols cx)
             (TypeRef (fst (sel_typeref sel)) (snd (sel_typeref sel))) of
        None \<Rightarrow> error (couldnt_find (sel_location sel)) st
      | Some found \<Rightarrow>
          if t_kind found \<noteq> KLookupRef
          then error (expected_function (kindname c (t_kind found)) (sel_location sel)) st
          else snd (subtype c (Some found) (Some call) st))"

definition post_Select ::
  "'s collab \<Rightarrow> ctx \<Rightarrow> 'a Select_scheme \<Rightarrow> 's infer \<Rightarrow> ('a Select_scheme \<times> 's infer) option" where
  "post_Select c cx sel st =
     (case call_type cx st (sel_expr sel) (sel_args sel) of None \<Rightarrow> None
      | Some call \<Rightarrow>
          let d = Select_dynamic c sel call st
          in if fst d then Some (sel, snd d)
             else Some (sel, Select_static c cx sel call (snd d)))"

definition no_type :: "string \<Rightarrow> Location \<Rightarrow> Diagnostic" where
  "no_type msg loc = [Loc loc, Str msg, Text loc]"

definition post_Int :: "'s collab \<Rightarrow> ctx \<Rightarrow> Location \<Rightarrow> 's infer \<Rightarrow> 's infer option" where
  "post_Int c cx i st =
     (case make_constant_type c cx st name_int of
        None \<Rightarrow> Some (error (no_type ''No type Integer in scope.'' i) st)
      | Some t \<Rightarrow>
         (case lhs cx of None \<Rightarrow> None
          | Some n \<Rightarrow>
             (case g cx st n of None \<Rightarrow> None
              | Some l \<Rightarrow> Some (snd (subtype c (l_type l) (Some t) st)))))"

definition post_Float :: "'s collab \<Rightarrow> ctx \<Rightarrow> Location \<Rightarrow> 's infer \<Rightarrow> 's infer option" where
  "post_Float c cx f st =
     (case make_constant_type c cx st name_float of
        None \<Rightarrow> Some (error (no_type ''No type Float in scope.'' f) st)
      | Some t \<Rightarrow>
         (case lhs cx of None \<Rightarrow> None
          | Some n \<Rightarrow>
             (case g cx st n of None \<Rightarrow> None
              | Some l \<Rightarrow> Some (snd (subtype c (l_type l) (Some t) st)))))"

definition post_Bool :: "'s collab \<Rightarrow> ctx \<Rightarrow> Location \<Rightarrow> 's infer \<Rightarrow> 's infer option" where
  "post_Bool c cx b st =
     (case make_constant_type c cx st name_bool of
        None \<Rightarrow> Some (error (no_type ''No type Bool in scope.'' b) st)
      | Some t \<Rightarrow>
         (case lhs cx of None \<Rightarrow> None
          | Some n \<Rightarrow>
             (case g cx st n of None \<Rightarrow> None
              | Some l \<Rightarrow> Some (snd (subtype c (Some t) (l_type l) st)))))"

definition post_Lambda :: "'s collab \<Rightarrow> ctx \<Rightarrow> LambdaNode \<Rightarrow> 's infer \<Rightarrow> 's infer option" where
  "post_Lambda c cx lam st =
     (case parent cx of None \<Rightarrow> None
      | Some p \<Rightarrow>
         (case p of
            Assign left right \<Rightarrow>
              (case g cx st (e_location left) of None \<Rightarrow> None
               | Some l \<Rightarrow> Some (snd (subtype c (function_type c lam) (l_type l) st)))
          | Param \<Rightarrow>
              if lam_typeparams lam = [] \<and> lam_params lam = [] then Some st else None
          | Field type \<Rightarrow>
              if lam_typeparams lam = [] \<and> lam_params lam = []
              then let r = subtype c (lam_result lam) type st
                   in if \<not> fst r
                      then (case type of None \<Rightarrow> None
                            | Some ty \<Rightarrow>
                                Some (error [Loc (lam_location lam),
                                  Str ''The field initialiser is not a subtype of the field type.'',
                                  Text (lam_location lam), Loc (t_location ty),
                                  Str ''Field type is here.'', Text (t_location ty)] (snd r)))
                      else Some (snd r)
              else None
          | _ \<Rightarrow> Some st))"

text \<open>
  The overloads of \<^verbatim>\<open>post\<close>: the handler is chosen by the kind of the
  node. Modelled from the spec: \<^verbatim>\<open>AST_PASS\<close> (\<^verbatim>\<open>pass.h\<close>, not
  part of the sources at hand) gives a kind without a handler of its own a
  handler that does nothing, as the stubs of the reserved kinds do.
\<close>

fun post :: "'s collab \<Rightarrow> ctx \<Rightarrow> Node \<Rightarrow> 's infer \<Rightarrow> 's infer option" where
  "post c cx (Free fr) st = post_Free cx fr st"
| "post c cx (TypeNode (LookupRef l d subs self)) st = Some (post_LookupRef c subs st)"
| "post c cx (Ref ref) st = post_Ref c cx ref st"
| "post c cx (Oftype expr type) st = post_Oftype c cx expr type st"
| "post c cx (Throw expr) st = post_Throw c cx expr st"
| "post c cx (Assign left right) st = post_Assign cx left right st"
| "post c cx (Tuple loc seq) st = post_Tuple cx loc seq st"
| "post c cx (SelectNode sel) st = map_option snd (post_Select c cx sel st)"
| "post c cx New st = Some st"
| "post c cx ObjectLiteral st = Some st"
| "post c cx Match st = Some st"
| "post c cx When st = Some st"
| "post c cx EscapedString st = Some st"
| "post c cx (IntNode i) st = post_Int c cx i st"
| "post c cx (FloatNode f) st = post_Float c cx f st"
| "post c cx (BoolNode b) st = post_Bool c cx b st"
| "post c cx (Lambda lam) st = post_Lambda c cx lam st"
| "post c cx _ st = Some st"

section \<open>The traversal and the entry points\<close>

text \<open>
  Modelled from the spec: the traversal \<^verbatim>\<open>pass << ast\<close> of
  \<^verbatim>\<open>Pass<F>\<close> (\<^verbatim>\<open>pass.h\<close> is not part of the sources at hand):
  a recursive descent that visits every node after its children, with the
  parent stack kept by the recursion. A \<open>Tree\<close> is a node with its identity,
  the scope it lies in, its own fields and its children in the order of the
  descent. The handler \<open>h\<close> is the \<^verbatim>\<open>post\<close> of the pass \<open>F\<close>.
\<close>

datatype Tree = Tree nat nat Node "Tree list"

fun walk :: "(ctx \<Rightarrow> Node \<Rightarrow> 'st \<Rightarrow> 'st option) \<Rightarrow> Node list \<Rightarrow> Tree \<Rightarrow> 'st \<Rightarrow> 'st option"
and walk_list :: "(ctx \<Rightarrow> Node \<Rightarrow> 'st \<Rightarrow> 'st option) \<Rightarrow> Node list \<Rightarrow> Tree list \<Rightarrow> 'st \<Rightarrow> 'st option" where
  "walk h stk (Tree a sc n kids) st =
     (case walk_list h (n # stk) kids st of None \<Rightarrow> None
      | Some st' \<Rightarrow> h \<lparr>stack = stk, current = a, symbols = sc\<rparr> n st')"
| "walk_list h stk [] st = Some st"
| "walk_list h stk (t # ts) st =
     (case walk h stk t st of None \<Rightarrow> None
      | Some st' \<Rightarrow> walk_list h stk ts st')"

text \<open>
  The AST handed to the entry points: the tree and the locals that its symbol
  tables point to.
\<close>

record Ast =
  ast_root :: Tree
  ast_locals :: "nat \<Rightarrow> Location \<rightharpoonup> Local"

text \<open>
  \<open>Infer_init\<close> is the freshly constructed \<^verbatim>\<open>Infer r\<close>; \<open>run_state\<close> is
  \<open>r\<close> after \<^verbatim>\<open>r << ast\<close> and \<open>run\<close> the value
  \<^verbatim>\<open>r && r.subtype\<close>.
\<close>

definition Infer_init :: "'s collab \<Rightarrow> Ast \<Rightarrow> 's infer" where
  "Infer_init c ast =
     \<lparr>ok = True, out = [], symtab = ast_locals ast, subtype_st = subtype_init c, calls = []\<rparr>"

definition run_state :: "'s collab \<Rightarrow> Ast \<Rightarrow> 's infer option" where
  "run_state c ast = walk (post c) [] (ast_root ast) (Infer_init c ast)"

definition run :: "'s collab \<Rightarrow> Ast \<Rightarrow> bool option" where
  "run c ast =
     (case run_state c ast of None \<Rightarrow> None
      | Some r \<Rightarrow> Some (ok r \<and> subtype_ok c (subtype_st r)))"

text \<open>
  The pass \<^verbatim>\<open>WF\<close>: its only handler is \<^verbatim>\<open>post(InferType&)\<close>,
  whose body is a comment.
\<close>

fun WF_post :: "ctx \<Rightarrow> Node \<Rightarrow> pass \<Rightarrow> pass option" where
  "WF_post cx (TypeNode (InferType l n)) p = Some p"
| "WF_post cx _ p = Some p"

definition WF_init :: pass where
  "WF_init = \<lparr>ok = True, out = []\<rparr>"

definition wellformed_state :: "Ast \<Rightarrow> pass option" where
  "wellformed_state ast = walk WF_post [] (ast_root ast) WF_init"

definition wellformed :: "Ast \<Rightarrow> bool option" where
  "wellformed ast =
     (case wellformed_state ast of None \<Rightarrow> None | Some p \<Rightarrow> Some (ok p))"

section \<open>Notions of the specification\<close>

text \<open>
  The constraints and diagnostics that a handler adds are read off the state
  before and after it.
\<close>

definition new_calls :: "'s infer \<Rightarrow> 's infer \<Rightarrow> Call list" where
  "new_calls st st' = drop (length (calls st)) (calls st')"

definition new_out :: "'a pass_scheme \<Rightarrow> 'b pass_scheme \<Rightarrow> Diagnostic list" where
  "new_out st st' = drop (length (out st)) (out st')"



text \<open>
  The component types of an operand of a call: those of a tuple type, the
  type itself otherwise.
\<close>

definition components :: "Type \<Rightarrow> Type option list" where
  "components t = (case t of TupleType l ts \<Rightarrow> ts | _ \<Rightarrow> [Some t])"

text \<open>
  The nominal type of a literal, \<open>imm & name\<close>, and whether the name resolves
  in the current scope.
\<close>

definition constant_typeref :: "Location \<Rightarrow> Type" where
  "constant_typeref name = TypeRef name [TypeName name []]"

definition imm_and :: "Location \<Rightarrow> Type" where
  "imm_and name = IsectType name [Some (constant_typeref name), Some (Imm ''imm'')]"

definition in_scope :: "'s collab \<Rightarrow> ctx \<Rightarrow> 's infer \<Rightarrow> Location \<Rightarrow> bool" where
  "in_scope c cx st name \<longleftrightarrow>
     lookup_typeref c (subtype_st st) (symbols cx) (constant_typeref name) \<noteq> None"

text \<open>
  Dynamic dispatch is open to a call whose argument side exists and whose
  \<open>typeref\<close> is a single name; its candidates are the members of that name
  in the receiver; static dispatch looks the \<open>typeref\<close> up in the scope.
\<close>

definition is_Dynamic :: "Call \<Rightarrow> bool" where
  "is_Dynamic k = (case k of Dynamic f t \<Rightarrow> True | _ \<Rightarrow> False)"

definition dynamic_eligible :: "'a Select_scheme \<Rightarrow> Type \<Rightarrow> bool" where
  "dynamic_eligible sel call \<longleftrightarrow> f_left call \<noteq> None \<and> length (snd (sel_typeref sel)) = 1"

definition dynamic_candidates :: "'s collab \<Rightarrow> 'a Select_scheme \<Rightarrow> Type \<Rightarrow> 's infer \<Rightarrow> Type list" where
  "dynamic_candidates c sel call st =
     lookup_member c (subtype_st st) (receiver_type c (f_left call)) (hd (snd (sel_typeref sel)))"

definition static_lookup :: "'s collab \<Rightarrow> ctx \<Rightarrow> 'a Select_scheme \<Rightarrow> 's infer \<Rightarrow> Type option" where
  "static_lookup c cx sel st =
     lookup_typeref c (subtype_st st) (symbols cx)
       (TypeRef (fst (sel_typeref sel)) (snd (sel_typeref sel)))"

text \<open>
  Errors accumulate: the stream before a step is a prefix of the stream after
  it, and the flag of the pass is cleared exactly when the step has written
  to the stream. Two states do the same work when they differ in the
  recorded errors at most.
\<close>

definition accumulates :: "'a pass_scheme \<Rightarrow> 'b pass_scheme \<Rightarrow> bool" where
  "accumulates p p' \<longleftrightarrow> prefix (out p) (out p') \<and> ok p' = (ok p \<and> out p' = out p)"

definition same_work :: "'s infer \<Rightarrow> 's infer \<Rightarrow> bool" where
  "same_work s t \<longleftrightarrow> symtab s = symtab t \<and> subtype_st s = subtype_st t \<and> calls s = calls t"

text \<open>
  The trees on which no handler dereferences a null pointer or fails an
  \<^verbatim>\<open>assert\<close>, whatever the solver and the lookup engine answer. \<open>m\<close>
  holds the locals at the start of the pass. \<open>handler_ok m cx n\<close> says of
  the node \<open>n\<close> in the context \<open>cx\<close>: every name that the handler looks up
  is bound in its scope, and both operands of a call with two operands have
  a type; a literal, a tuple and a call lie in an assignment, a
  \<^verbatim>\<open>Throw\<close> in a lambda; a \<^verbatim>\<open>Ref\<close> and a \<^verbatim>\<open>Lambda\<close> have a
  parent; a \<^verbatim>\<open>Lambda\<close> that is the parent of a \<^verbatim>\<open>Ref\<close> has a
  result type and a \<^verbatim>\<open>Field\<close> that is the parent of a
  \<^verbatim>\<open>Lambda\<close> has a type (the source reads the location of either when
  the solver rejects); a \<^verbatim>\<open>Lambda\<close> under a \<^verbatim>\<open>Param\<close> or a
  \<^verbatim>\<open>Field\<close> has no parameters. \<open>tree_ok\<close> says so of every node of a
  tree, and \<open>locals_ok m st\<close> that the locals bound, and typed, in \<open>m\<close>
  still are in the state \<open>st\<close>.
\<close>

definition bound :: "(nat \<Rightarrow> Location \<rightharpoonup> Local) \<Rightarrow> nat \<Rightarrow> Location \<Rightarrow> bool" where
  "bound m sc name \<longleftrightarrow> m sc name \<noteq> None"

definition typed :: "(nat \<Rightarrow> Location \<rightharpoonup> Local) \<Rightarrow> nat \<Rightarrow> Location \<Rightarrow> bool" where
  "typed m sc name \<longleftrightarrow> (case m sc name of None \<Rightarrow> False | Some l \<Rightarrow> l_type l \<noteq> None)"

definition lhs_bound :: "(nat \<Rightarrow> Location \<rightharpoonup> Local) \<Rightarrow> ctx \<Rightarrow> bool" where
  "lhs_bound m cx \<longleftrightarrow> (case lhs cx of None \<Rightarrow> False | Some n \<Rightarrow> bound m (symbols cx) n)"

fun Ref_ok :: "(nat \<Rightarrow> Location \<rightharpoonup> Local) \<Rightarrow> ctx \<Rightarrow> Location \<Rightarrow> Node \<Rightarrow> bool" where
  "Ref_ok m cx ref (Oftype expr type) = True"
| "Ref_ok m cx ref (Assign left right) =
     (e_addr left = current cx
      \<or> bound m (symbols cx) ref \<and> bound m (symbols cx) (e_location left))"
| "Ref_ok m cx ref (Lambda lam) = (bound m (symbols cx) ref \<and> lam_result lam \<noteq> None)"
| "Ref_ok m cx ref _ = bound m (symbols cx) ref"

fun Lambda_ok :: "(nat \<Rightarrow> Location \<rightharpoonup> Local) \<Rightarrow> ctx \<Rightarrow> LambdaNode \<Rightarrow> Node \<Rightarrow> bool" where
  "Lambda_ok m cx lam (Assign left right) = bound m (symbols cx) (e_location left)"
| "Lambda_ok m cx lam Param = (lam_typeparams lam = [] \<and> lam_params lam = [])"
| "Lambda_ok m cx lam (Field type) =
     (lam_typeparams lam = [] \<and> lam_params lam = [] \<and> type \<noteq> None)"
| "Lambda_ok m cx lam _ = True"

definition Select_ok :: "(nat \<Rightarrow> Location \<rightharpoonup> Local) \<Rightarrow> ctx \<Rightarrow> Expr option \<Rightarrow> Expr option \<Rightarrow> bool" where
  "Select_ok m cx left right \<longleftrightarrow>
     (case (left, right) of
        (Some l, None) \<Rightarrow> bound m (symbols cx) (e_location l)
      | (None, Some r) \<Rightarrow> bound m (symbols cx) (e_location r)
      | (Some l, Some r) \<Rightarrow>
          typed m (symbols cx) (e_location l) \<and> typed m (symbols cx) (e_location r)
      | (None, None) \<Rightarrow> True)
     \<and> lhs_bound m cx"

fun handler_ok :: "(nat \<Rightarrow> Location \<rightharpoonup> Local) \<Rightarrow> ctx \<Rightarrow> Node \<Rightarrow> bool" where
  "handler_ok m cx (Free fr) = bound m (symbols cx) fr"
| "handler_ok m cx (Ref ref) =
     (case parent cx of None \<Rightarrow> False | Some p \<Rightarrow> Ref_ok m cx ref p)"
| "handler_ok m cx (Oftype expr type) = bound m (symbols cx) (e_location expr)"
| "handler_ok m cx (Throw expr) =
     (bound m (symbols cx) (e_location expr) \<and> parent_Lambda (stack cx) \<noteq> None)"
| "handler_ok m cx (Assign left right) = bound m (symbols cx) (e_location left)"
| "handler_ok m cx (Tuple loc seq) =
     (list_all (\<lambda>e. bound m (symbols cx) (e_location e)) seq \<and> lhs_bound m cx)"
| "handler_ok m cx (SelectNode sel) = Select_ok m cx (sel_expr sel) (sel_args sel)"
| "handler_ok m cx (IntNode i) = lhs_bound m cx"
| "handler_ok m cx (FloatNode f) = lhs_bound m cx"
| "handler_ok m cx (BoolNode b) = lhs_bound m cx"
| "handler_ok m cx (Lambda lam) =
     (case parent cx of None \<Rightarrow> False | Some p \<Rightarrow> Lambda_ok m cx lam p)"
| "handler_ok m cx _ = True"

fun tree_ok :: "(nat \<Rightarrow> Location \<rightharpoonup> Local) \<Rightarrow> Node list \<Rightarrow> Tree \<Rightarrow> bool"
and trees_ok :: "(nat \<Rightarrow> Location \<rightharpoonup> Local) \<Rightarrow> Node list \<Rightarrow> Tree list \<Rightarrow> bool" where
  "tree_ok m stk (Tree a sc n kids) =
     (trees_ok m (n # stk) kids \<and> handler_ok m \<lparr>stack = stk, current = a, symbols = sc\<rparr> n)"
| "trees_ok m stk [] = True"
| "trees_ok m stk (t # ts) = (tree_ok m stk t \<and> trees_ok m stk ts)"

definition locals_ok :: "(nat \<Rightarrow> Location \<rightharpoonup> Local) \<Rightarrow> 's infer \<Rightarrow> bool" where
  "locals_ok m st \<longleftrightarrow>
     (\<forall>sc name. (bound m sc name \<longrightarrow> bound (symtab st) sc name)
               \<and> (typed m sc name \<longrightarrow> typed (symtab st) sc name))"

section \<open>A small program to run the pass on\<close>

text \<open>
  Collaborators that answer every query the same way: the solver counts its
  calls and answers \<open>sub\<close> to a constraint and \<open>dyn\<close> to a dynamic
  dispatch, a type reference resolves to \<open>tr\<close> of it, no type has members.
\<close>

definition demo_collab :: "bool \<Rightarrow> bool \<Rightarrow> (Type \<Rightarrow> Type option) \<Rightarrow> nat collab" where
  "demo_collab sub dyn tr =
     \<lparr>subtype_fn = (\<lambda>s a b. (sub, Suc s)),
      dynamic_fn = (\<lambda>s found call. (dyn, Suc s)),
      subtype_ok = (\<lambda>s. sub),
      subtype_init = 0,
      lookup_typeref = (\<lambda>s sc t. tr t),
      lookup_member = (\<lambda>s receiver n. []),
      receiver_type = (\<lambda>t. t),
      throwtype = (\<lambda>t. t),
      function_type = (\<lambda>lam. None),
      kindname = (\<lambda>k. ''TypeRef'')\<rparr>"

definition demo_none :: "Type \<Rightarrow> Type option" where
  "demo_none t = None"

definition demo_function :: "Type \<Rightarrow> Type option" where
  "demo_function t = Some (LookupRef (t_location t) 0 [] None)"

definition demo_class :: "Type \<Rightarrow> Type option" where
  "demo_class t = Some t"

text \<open>
  The locals of scope 0: \<open>let x\<close> and \<open>let w\<close>, not yet assigned, with
  inferred types; \<open>var y\<close> of a tuple type and \<open>let z: U64\<close>, both
  assigned.
\<close>

definition demo_U64 :: Type where
  "demo_U64 = TypeRef ''U64'' [TypeName ''U64'' []]"

definition demo_x :: Local where
  "demo_x = \<lparr>l_kind = KLet, l_location = ''x'', l_type = Some (InferType ''x'' 0), l_assigned = False\<rparr>"

definition demo_w :: Local where
  "demo_w = \<lparr>l_kind = KLet, l_location = ''w'', l_type = Some (InferType ''w'' 3), l_assigned = False\<rparr>"

definition demo_y :: Local where
  "demo_y = \<lparr>l_kind = KVar, l_location = ''y'',
              l_type = Some (TupleType ''y'' [Some (InferType ''a'' 1), Some (InferType ''b'' 2)]),
              l_assigned = True\<rparr>"

definition demo_z :: Local where
  "demo_z = \<lparr>l_kind = KLet, l_location = ''z'', l_type = Some demo_U64, l_assigned = True\<rparr>"

definition demo_locals :: "nat \<Rightarrow> Location \<rightharpoonup> Local" where
  "demo_locals sc =
     (if sc = 0 then [''x'' \<mapsto> demo_x, ''w'' \<mapsto> demo_w, ''y'' \<mapsto> demo_y, ''z'' \<mapsto> demo_z]
      else Map.empty)"

definition demo_infer :: "nat infer" where
  "demo_infer = \<lparr>ok = True, out = [], symtab = demo_locals, subtype_st = 0, calls = []\<rparr>"

text \<open>
  The context of the right child of an assignment to \<open>l\<close>, and that of its
  left child.
\<close>

definition demo_assign :: "Location \<Rightarrow> Node" where
  "demo_assign l = Assign \<lparr>e_addr = 1, e_location = l\<rparr> \<lparr>e_addr = 2, e_location = ''rhs''\<rparr>"

definition demo_right_of :: "Location \<Rightarrow> ctx" where
  "demo_right_of l = \<lparr>stack = [demo_assign l], current = 2, symbols = 0\<rparr>"

definition demo_left_of :: "Location \<Rightarrow> ctx" where
  "demo_left_of l = \<lparr>stack = [demo_assign l], current = 1, symbols = 0\<rparr>"

definition demo_at :: "Node \<Rightarrow> ctx" where
  "demo_at p = \<lparr>stack = [p], current = 2, symbols = 0\<rparr>"

text \<open>The call \<open>x = z.f(y)\<close>, not annotated, and its call type.\<close>

definition demo_select :: AnnotatedSelect where
  "demo_select =
     \<lparr>sel_location = ''sel'', sel_expr = Some \<lparr>e_addr = 3, e_location = ''z''\<rparr>,
      sel_typeref = (''f'', [TypeName ''f'' []]),
      sel_args = Some \<lparr>e_addr = 4, e_location = ''y''\<rparr>, sel_dispatch = None\<rparr>"

definition demo_call :: Type where
  "demo_call =
     FunctionType []
       (Some (TupleType ''U64'' [Some demo_U64, Some (InferType ''a'' 1), Some (InferType ''b'' 2)]))
       (Some (InferType ''x'' 0))"

text \<open>
  A substitution of three pairs; the parameter of the second is gone, that of
  the third has no upper bound.
\<close>

definition demo_subs :: "(TypeParam option \<times> Type option) list" where
  "demo_subs =
     [(Some (TypeParam ''T'' (Some demo_U64)), Some (InferType ''a'' 1)),
      (None, Some demo_U64),
      (Some (TypeParam ''U'' None), Some demo_U64)]"

text \<open>
  The program \<open>let x; let w = x; x = 3\<close> in three-address form: the use of
  \<open>x\<close> precedes its assignment.
\<close>

definition demo_ast :: Ast where
  "demo_ast =
     \<lparr>ast_root =
        Tree 0 0 (OtherNode (KOther 0))
          [Tree 10 0 (Assign \<lparr>e_addr = 11, e_location = ''w''\<rparr> \<lparr>e_addr = 12, e_location = ''x''\<rparr>)
             [Tree 11 0 (Ref ''w'') [], Tree 12 0 (Ref ''x'') []],
           Tree 20 0 (Assign \<lparr>e_addr = 21, e_location = ''x''\<rparr> \<lparr>e_addr = 22, e_location = ''3''\<rparr>)
             [Tree 21 0 (Ref ''x'') [], Tree 22 0 (IntNode ''3'') []]],
      ast_locals = demo_locals\<rparr>"

text \<open>The program \<open>let x; x = 3\<close>.\<close>

definition demo_ok_ast :: Ast where
  "demo_ok_ast =
     \<lparr>ast_root =
        Tree 0 0 (OtherNode (KOther 0))
          [Tree 20 0 (Assign \<lparr>e_addr = 21, e_location = ''x''\<rparr> \<lparr>e_addr = 22, e_location = ''3''\<rparr>)
             [Tree 21 0 (Ref ''x'') [], Tree 22 0 (IntNode ''3'') []]],
      ast_locals = demo_locals\<rparr>"

text \<open>A tree with an inference variable left in it.\<close>

definition demo_wf_ast :: Ast where
  "demo_wf_ast =
     \<lparr>ast_root =
        Tree 0 0 (OtherNode (KOther 0)) [Tree 1 0 (TypeNode (InferType ''x'' 0)) []],
      ast_locals = demo_locals\<rparr>"

text \<open>
  A lambda whose body uses \<open>x\<close> before its assignment, ascribes a type to
  it, captures it, throws \<open>z\<close>, assigns a literal and then a call to \<open>x\<close>
  and returns \<open>y\<close>.
\<close>

definition demo_lambda :: LambdaNode where
  "demo_lambda = \<lparr>lam_location = ''lam'', lam_typeparams = [], lam_params = [],
                  lam_result = Some demo_U64\<rparr>"

definition demo_plain_select :: Select where
  "demo_plain_select =
     \<lparr>sel_location = ''sel'', sel_expr = Some \<lparr>e_addr = 63, e_location = ''z''\<rparr>,
      sel_typeref = (''f'', [TypeName ''f'' []]),
      sel_args = Some \<lparr>e_addr = 64, e_location = ''y''\<rparr>\<rparr>"

definition demo_big_ast :: Ast where
  "demo_big_ast =
     \<lparr>ast_root =
        Tree 0 0 (OtherNode (KOther 0)) [Tree 1 0 (Lambda demo_lambda)
          [Tree 10 0 (Assign \<lparr>e_addr = 11, e_location = ''w''\<rparr> \<lparr>e_addr = 12, e_location = ''x''\<rparr>)
             [Tree 11 0 (Ref ''w'') [], Tree 12 0 (Ref ''x'') []],
           Tree 30 0 (Oftype \<lparr>e_addr = 31, e_location = ''x''\<rparr> (Some demo_U64))
             [Tree 31 0 (Ref ''x'') []],
           Tree 40 0 (Free ''x'') [],
           Tree 50 0 (Throw \<lparr>e_addr = 51, e_location = ''z''\<rparr>) [Tree 51 0 (Ref ''z'') []],
           Tree 20 0 (Assign \<lparr>e_addr = 21, e_location = ''x''\<rparr> \<lparr>e_addr = 22, e_location = ''3''\<rparr>)
             [Tree 21 0 (Ref ''x'') [], Tree 22 0 (IntNode ''3'') []],
           Tree 60 0 (Assign \<lparr>e_addr = 61, e_location = ''x''\<rparr> \<lparr>e_addr = 62, e_location = ''sel''\<rparr>)
             [Tree 61 0 (Ref ''x'') [], Tree 62 0 (SelectNode demo_plain_select) []],
           Tree 70 0 (Ref ''y'') []]],
      ast_locals = demo_locals\<rparr>"

section \<open>Auxiliary facts\<close>

lemmas demo_defs = demo_collab_def demo_none_def demo_function_def demo_class_def demo_U64_def
  demo_x_def demo_w_def demo_y_def demo_z_def demo_locals_def demo_infer_def demo_assign_def
  demo_right_of_def demo_left_of_def demo_at_def demo_select_def demo_call_def demo_subs_def
  demo_lambda_def demo_plain_select_def

lemma unpack_type_components: "unpack_type to (Some t) = to @ components t"
  by (cases t) (simp_all add: components_def)

lemma make_constant_type_eq:
  "make_constant_type c cx st name =
     (if in_scope c cx st name then Some (imm_and name) else None)"
  by (simp add: make_constant_type_def in_scope_def imm_and_def constant_typeref_def
        type_imm_def name_imm_def Let_def)


lemma post_LookupRef_pass:
  "ok (post_LookupRef c subs st) = ok st \<and> out (post_LookupRef c subs st) = out st
   \<and> symtab (post_LookupRef c subs st) = symtab st"
  by (induction c subs st rule: post_LookupRef.induct)
     (simp_all add: subtype_def Let_def)

lemma Select_dynamic_calls:
  "calls (snd (Select_dynamic c sel call st)) =
     calls st @ (if dynamic_eligible sel call
                 then [Dynamic (dynamic_candidates c sel call st) call] else [])"
  by (simp add: Select_dynamic_def dynamic_def dynamic_eligible_def dynamic_candidates_def Let_def)

lemma Select_dynamic_pass:
  "out (snd (Select_dynamic c sel call st)) = out st
   \<and> ok (snd (Select_dynamic c sel call st)) = ok st
   \<and> symtab (snd (Select_dynamic c sel call st)) = symtab st"
  by (simp add: Select_dynamic_def dynamic_def Let_def)

lemma Select_dynamic_fst:
  "fst (Select_dynamic c sel call st) \<longleftrightarrow>
     dynamic_eligible sel call
     \<and> fst (dynamic_fn c (subtype_st st) (dynamic_candidates c sel call st) call)"
  by (simp add: Select_dynamic_def dynamic_def dynamic_eligible_def dynamic_candidates_def Let_def)

lemma demo_call_type:
  "call_type (demo_right_of ''x'') demo_infer (sel_expr demo_select) (sel_args demo_select)
     = Some demo_call"
  by (simp add: call_type_def call_left_def lhs_def g_def demo_defs)

lemma demo_lhs: "lhs (demo_right_of l) = Some l"
  by (simp add: lhs_def demo_defs)

lemma demo_g:
  "g (demo_right_of l) demo_infer ''x'' = Some demo_x"
  "g (demo_right_of l) demo_infer ''w'' = Some demo_w"
  "g (demo_right_of l) demo_infer ''y'' = Some demo_y"
  "g (demo_right_of l) demo_infer ''z'' = Some demo_z"
  by (simp_all add: g_def demo_right_of_def demo_infer_def demo_locals_def)

subsection \<open>Errors accumulate\<close>

lemma accumulates_refl: "accumulates p p"
  by (simp add: accumulates_def)

lemma accumulates_trans: "accumulates p q \<Longrightarrow> accumulates q r \<Longrightarrow> accumulates p r"
  by (auto simp add: accumulates_def prefix_def)

lemma accumulates_subtype: "accumulates st (snd (subtype c a b st))"
  by (simp add: accumulates_def subtype_def Let_def)

lemma accumulates_post_LookupRef: "accumulates st (post_LookupRef c subs st)"
  by (induction c subs st rule: post_LookupRef.induct)
     (auto intro: accumulates_refl accumulates_trans accumulates_subtype)

lemma accumulates_post_Select:
  "post_Select c cx sel st = Some (sel', st') \<Longrightarrow> accumulates st st'"
  by (auto simp add: post_Select_def Select_dynamic_def Select_static_def Let_def
        accumulates_def error_def subtype_def dynamic_def
        split: option.splits if_splits)

lemma accumulates_post:
  "post c cx n st = Some st' \<Longrightarrow> accumulates st st'"
proof (cases n)
  case (TypeNode t)
  assume "post c cx n st = Some st'"
  with TypeNode show ?thesis
    by (cases t) (auto simp add: accumulates_post_LookupRef accumulates_refl)
next
  case (SelectNode sel)
  assume "post c cx n st = Some st'"
  with SelectNode show ?thesis
    by (auto dest: accumulates_post_Select)
next
  case (Ref r)
  assume "post c cx n st = Some st'"
  with Ref show ?thesis
    by (auto simp add: post_Ref_def post_Ref_check_def accumulates_def error_def subtype_def Let_def
          split: option.splits if_splits Node.splits)
next
  case (Lambda lam)
  assume "post c cx n st = Some st'"
  with Lambda show ?thesis
    by (auto simp add: post_Lambda_def accumulates_def error_def subtype_def Let_def
          split: option.splits if_splits Node.splits)
qed (auto simp add: post_Free_def post_Oftype_def post_Throw_def post_Assign_def post_Tuple_def
       post_Int_def post_Float_def post_Bool_def accumulates_def error_def subtype_def Let_def
       split: option.splits if_splits)

subsection \<open>The traversal\<close>

lemma walk_invariant:
  "walk h stk t st = Some st' \<Longrightarrow> (\<And>cx n s s'. h cx n s = Some s' \<Longrightarrow> R s s') \<Longrightarrow>
     (\<And>s. R s s) \<Longrightarrow> (\<And>a b c. R a b \<Longrightarrow> R b c \<Longrightarrow> R a c) \<Longrightarrow> R st st'"
  "walk_list h stk ts st = Some st' \<Longrightarrow> (\<And>cx n s s'. h cx n s = Some s' \<Longrightarrow> R s s') \<Longrightarrow>
     (\<And>s. R s s) \<Longrightarrow> (\<And>a b c. R a b \<Longrightarrow> R b c \<Longrightarrow> R a c) \<Longrightarrow> R st st'"
proof (induction h stk t st and h stk ts st arbitrary: st' and st' rule: walk_walk_list.induct)
  case (1 h stk a sc n kids st)
  from "1.prems"(1) obtain s1 where k: "walk_list h (n # stk) kids st = Some s1"
    and p: "h \<lparr>stack = stk, current = a, symbols = sc\<rparr> n s1 = Some st'"
    by (auto split: option.splits)
  have "R st s1" using "1.IH"[OF k "1.prems"(2-4)] .
  moreover have "R s1 st'" using "1.prems"(2)[OF p] .
  ultimately show ?case using "1.prems"(4) by blast
next
  case (2 h stk st)
  then show ?case by simp
next
  case (3 h stk t ts st)
  from "3.prems"(1) obtain s1 where k: "walk h stk t st = Some s1"
    and p: "walk_list h stk ts s1 = Some st'"
    by (auto split: option.splits)
  have "R st s1" using "3.IH"(1)[OF k "3.prems"(2-4)] .
  moreover have "R s1 st'" using "3.IH"(2)[OF k p "3.prems"(2-4)] .
  ultimately show ?case using "3.prems"(4) by blast
qed

lemma walk_rel:
  "S s t \<Longrightarrow> (\<And>cx n s t. S s t \<Longrightarrow> rel_option S (h cx n s) (h cx n t)) \<Longrightarrow>
     rel_option S (walk h stk tr s) (walk h stk tr t)"
  "S s t \<Longrightarrow> (\<And>cx n s t. S s t \<Longrightarrow> rel_option S (h cx n s) (h cx n t)) \<Longrightarrow>
     rel_option S (walk_list h stk trs s) (walk_list h stk trs t)"
proof (induction h stk tr s and h stk trs s arbitrary: t and t rule: walk_walk_list.induct)
  case (1 h stk a sc n kids st)
  have r: "rel_option S (walk_list h (n # stk) kids st) (walk_list h (n # stk) kids t)"
    using "1.IH"[OF "1.prems"(1) "1.prems"(2)] .
  show ?case
  proof (cases "walk_list h (n # stk) kids st")
    case None
    with r show ?thesis by (cases "walk_list h (n # stk) kids t") simp_all
  next
    case (Some s1)
    with r obtain t1 where t1: "walk_list h (n # stk) kids t = Some t1" and "S s1 t1"
      by (cases "walk_list h (n # stk) kids t") simp_all
    then show ?thesis using Some "1.prems"(2)[of s1 t1] by simp
  qed
next
  case (2 h stk st)
  then show ?case by simp
next
  case (3 h stk tr ts st)
  have r: "rel_option S (walk h stk tr st) (walk h stk tr t)"
    using "3.IH"(1)[OF "3.prems"(1) "3.prems"(2)] .
  show ?case
  proof (cases "walk h stk tr st")
    case None
    with r show ?thesis by (cases "walk h stk tr t") simp_all
  next
    case (Some s1)
    with r obtain t1 where t1: "walk h stk tr t = Some t1" and st1: "S s1 t1"
      by (cases "walk h stk tr t") simp_all
    show ?thesis using "3.IH"(2)[OF Some st1 "3.prems"(2)] Some t1 by simp
  qed
qed

subsection \<open>Recorded errors do not change the work of a handler\<close>

lemma call_type_same: "same_work s t \<Longrightarrow> call_type cx s l r = call_type cx t l r"
  by (simp add: call_type_def call_left_def g_def same_work_def
        cong: option.case_cong prod.case_cong)

lemma tuple_types_same: "same_work s t \<Longrightarrow> tuple_types cx s es = tuple_types cx t es"
  by (induction es) (simp_all add: g_def same_work_def cong: option.case_cong)

lemma same_work_subtype:
  "same_work s t \<Longrightarrow> same_work (snd (subtype c a b s)) (snd (subtype c a b t))
     \<and> fst (subtype c a b s) = fst (subtype c a b t)"
  by (simp add: same_work_def subtype_def Let_def)

lemma same_work_post_LookupRef:
  "same_work s t \<Longrightarrow> same_work (post_LookupRef c subs s) (post_LookupRef c subs t)"
  by (induction c subs s arbitrary: t rule: post_LookupRef.induct)
     (simp_all add: same_work_subtype)

lemma same_work_cases:
  assumes "same_work s t"
  obtains a b a' b' m x k where
    "s = \<lparr>ok = a, out = b, symtab = m, subtype_st = x, calls = k\<rparr>"
    "t = \<lparr>ok = a', out = b', symtab = m, subtype_st = x, calls = k\<rparr>"
  using assms by (cases s; cases t) (simp add: same_work_def)

lemma same_work_post_Select:
  assumes "same_work s t"
  shows "rel_option (\<lambda>x y. same_work (snd x) (snd y))
           (post_Select c cx sel s) (post_Select c cx sel t)"
proof -
  from assms obtain a b a' b' m x k where
    s: "s = \<lparr>ok = a, out = b, symtab = m, subtype_st = x, calls = k\<rparr>" and
    t: "t = \<lparr>ok = a', out = b', symtab = m, subtype_st = x, calls = k\<rparr>"
    by (rule same_work_cases)
  have ct: "call_type cx s (sel_expr sel) (sel_args sel) = call_type cx t (sel_expr sel) (sel_args sel)"
    using assms by (rule call_type_same)
  show ?thesis
  proof (cases "call_type cx t (sel_expr sel) (sel_args sel)")
    case None
    with ct show ?thesis by (simp add: post_Select_def)
  next
    case (Some call)
    with ct show ?thesis
      by (simp add: post_Select_def Select_dynamic_def Select_static_def Let_def s t
            dynamic_def subtype_def error_def same_work_def split: option.splits)
  qed
qed

lemma same_work_post:
  assumes "same_work s t"
  shows "rel_option same_work (post c cx n s) (post c cx n t)"
proof -
  from assms obtain a b a' b' m x k where
    s: "s = \<lparr>ok = a, out = b, symtab = m, subtype_st = x, calls = k\<rparr>" and
    t: "t = \<lparr>ok = a', out = b', symtab = m, subtype_st = x, calls = k\<rparr>"
    by (rule same_work_cases)
  show ?thesis
  proof (cases n)
    case (TypeNode ty)
    then show ?thesis using assms
      by (cases ty) (simp_all add: same_work_post_LookupRef)
  next
    case (SelectNode sel)
    then show ?thesis using same_work_post_Select[OF assms, of c cx sel]
      by (simp add: option.rel_map)
  next
    case (Ref r)
    then show ?thesis
      by (simp add: post_Ref_def post_Ref_check_def s t g_def subtype_def error_def
            same_work_def Let_def split: option.splits Node.splits)
  next
    case (Lambda lam)
    then show ?thesis
      by (simp add: post_Lambda_def s t g_def subtype_def error_def
            same_work_def Let_def split: option.splits Node.splits)
  next
    case (Tuple loc seq)
    have "tuple_types cx s seq = tuple_types cx t seq"
      using assms by (rule tuple_types_same)
    then show ?thesis using Tuple
      by (cases "tuple_types cx t seq")
         (simp_all add: post_Tuple_def s t g_def same_work_def split: option.splits)
  qed (simp_all add: post_Free_def post_Oftype_def post_Throw_def post_Assign_def
        post_Int_def post_Float_def post_Bool_def make_constant_type_def
        s t g_def subtype_def error_def same_work_def Let_def split: option.splits)
qed

subsection \<open>No handler reads the flag of the solver\<close>

lemma subtype_ok_irrelevant:
  "subtype (c\<lparr>subtype_ok := f\<rparr>) = subtype c"
  "dynamic (c\<lparr>subtype_ok := f\<rparr>) = dynamic c"
  "make_constant_type (c\<lparr>subtype_ok := f\<rparr>) = make_constant_type c"
  "Select_dynamic (c\<lparr>subtype_ok := f\<rparr>) = Select_dynamic c"
  by (simp_all add: fun_eq_iff subtype_def dynamic_def make_constant_type_def Select_dynamic_def)

lemma Select_static_subtype_ok:
  "Select_static (c\<lparr>subtype_ok := f\<rparr>) = Select_static c"
  by (simp add: fun_eq_iff Select_static_def subtype_ok_irrelevant cong: option.case_cong if_cong)

lemma post_subtype_ok: "post (c\<lparr>subtype_ok := f\<rparr>) cx n st = post c cx n st"
proof (cases n)
  case (TypeNode ty)
  have "post_LookupRef (c\<lparr>subtype_ok := f\<rparr>) subs st = post_LookupRef c subs st" for subs
    by (induction c subs st rule: post_LookupRef.induct) (simp_all add: subtype_def)
  with TypeNode show ?thesis by (cases ty) simp_all
qed (simp_all add: post_Free_def post_Oftype_def post_Throw_def post_Assign_def post_Tuple_def
        post_Int_def post_Float_def post_Bool_def post_Ref_def
        post_Lambda_def post_Select_def subtype_ok_irrelevant Select_static_subtype_ok Let_def
        cong: option.case_cong Node.case_cong if_cong)

subsection \<open>The validator changes nothing\<close>

lemma WF_post_id: "WF_post cx n p = Some p"
  by (cases "(cx, n, p)" rule: WF_post.cases) simp_all

lemma walk_id:
  "(\<And>cx n s. h cx n s = Some s) \<Longrightarrow> walk h stk t st = Some st"
  "(\<And>cx n s. h cx n s = Some s) \<Longrightarrow> walk_list h stk ts st = Some st"
  by (induction h stk t st and h stk ts st rule: walk_walk_list.induct) simp_all

subsection \<open>Handlers return on a well-formed tree\<close>

lemma locals_ok_symtab: "symtab st' = symtab st \<Longrightarrow> locals_ok m st' = locals_ok m st"
  by (simp add: locals_ok_def)

lemma locals_ok_simps:
  "locals_ok m (error d st) = locals_ok m st"
  "locals_ok m (snd (subtype c a b st)) = locals_ok m st"
  "locals_ok m (snd (dynamic c f k st)) = locals_ok m st"
  "locals_ok m (post_Ref_check ref l st) = locals_ok m st"
  by (simp_all add: locals_ok_def error_def subtype_def dynamic_def post_Ref_check_def Let_def)

lemma locals_ok_post_LookupRef: "locals_ok m (post_LookupRef c subs st) = locals_ok m st"
  by (rule locals_ok_symtab) (simp add: post_LookupRef_pass)

lemma locals_ok_init: "locals_ok (ast_locals ast) (Infer_init c ast)"
  by (simp add: locals_ok_def Infer_init_def)

lemma boundD: "locals_ok m st \<Longrightarrow> bound m (symbols cx) name \<Longrightarrow> \<exists>l. g cx st name = Some l"
  by (auto simp add: locals_ok_def bound_def g_def)

lemma typedD:
  "locals_ok m st \<Longrightarrow> typed m (symbols cx) name \<Longrightarrow> \<exists>l t. g cx st name = Some l \<and> l_type l = Some t"
  by (fastforce simp add: locals_ok_def typed_def g_def split: option.splits)

lemma lhs_boundD:
  "locals_ok m st \<Longrightarrow> lhs_bound m cx \<Longrightarrow> \<exists>n l. lhs cx = Some n \<and> g cx st n = Some l"
  by (auto simp add: lhs_bound_def dest: boundD split: option.splits)

lemma locals_ok_update:
  assumes "locals_ok m st" and "symtab st sc name = Some l"
    and "l_type l \<noteq> None \<longrightarrow> l_type l' \<noteq> None"
  shows "locals_ok m (st\<lparr>symtab := (symtab st)(sc := (symtab st sc)(name \<mapsto> l'))\<rparr>)"
  using assms by (auto simp add: locals_ok_def bound_def typed_def split: option.splits)


lemma post_Free_total:
  assumes "bound m (symbols cx) fr" "locals_ok m st"
  shows "\<exists>st'. post_Free cx fr st = Some st' \<and> locals_ok m st'"
proof -
  from boundD [OF assms(2,1)] obtain l where "g cx st fr = Some l" by blast
  with assms(2) show ?thesis by (simp add: post_Free_def locals_ok_simps)
qed

lemma post_Ref_total:
  assumes "parent cx = Some p" "Ref_ok m cx ref p" "locals_ok m st"
  shows "\<exists>st'. post_Ref c cx ref st = Some st' \<and> locals_ok m st'"
proof (cases "kind p = KOftype")
  case True
  with assms show ?thesis by (simp add: post_Ref_def)
next
  case no: False
  show ?thesis
  proof (cases "\<exists>left right. p = Assign left right \<and> e_addr left = current cx")
    case True
    with assms no show ?thesis by (auto simp add: post_Ref_def)
  next
    case False
    with assms(2) no have b: "bound m (symbols cx) ref" by (cases p) auto
    from boundD [OF assms(3) b] obtain l where l: "g cx st ref = Some l" by blast
    show ?thesis
    proof (cases p)
      case (Assign left right)
      with False assms(2) have "bound m (symbols cx) (e_location left)" by simp
      from boundD [OF assms(3) this] obtain ll where "g cx st (e_location left) = Some ll"
        by blast
      with Assign False l assms show ?thesis
        by (simp add: post_Ref_def locals_ok_simps)
    next
      case (Lambda lam)
      with assms(2) obtain ty where "lam_result lam = Some ty" by auto
      with Lambda l assms show ?thesis
        by (simp add: post_Ref_def locals_ok_simps Let_def)
    qed (use no l assms in \<open>simp_all add: post_Ref_def locals_ok_simps\<close>)
  qed
qed

lemma post_Oftype_total:
  assumes "bound m (symbols cx) (e_location expr)" "locals_ok m st"
  shows "\<exists>st'. post_Oftype c cx expr type st = Some st' \<and> locals_ok m st'"
proof -
  from boundD [OF assms(2,1)] obtain l where "g cx st (e_location expr) = Some l" by blast
  with assms(2) show ?thesis by (simp add: post_Oftype_def locals_ok_simps)
qed

lemma post_Throw_total:
  assumes "bound m (symbols cx) (e_location expr)" "parent_Lambda (stack cx) \<noteq> None"
    "locals_ok m st"
  shows "\<exists>st'. post_Throw c cx expr st = Some st' \<and> locals_ok m st'"
proof -
  from boundD [OF assms(3,1)] obtain l where "g cx st (e_location expr) = Some l" by blast
  moreover from assms(2) obtain lam where "parent_Lambda (stack cx) = Some lam" by blast
  ultimately show ?thesis using assms(3)
    by (simp add: post_Throw_def locals_ok_simps Let_def)
qed

lemma post_Assign_total:
  assumes "bound m (symbols cx) (e_location left)" "locals_ok m st"
  shows "\<exists>st'. post_Assign cx left right st = Some st' \<and> locals_ok m st'"
proof -
  from boundD [OF assms(2,1)] obtain l where l: "g cx st (e_location left) = Some l" by blast
  then have s: "symtab st (symbols cx) (e_location left) = Some l" by (simp add: g_def)
  have "locals_ok m (st\<lparr>symtab := (symtab st)(symbols cx :=
          (symtab st (symbols cx))(e_location left \<mapsto> l\<lparr>l_assigned := True\<rparr>))\<rparr>)"
    using assms(2) s by (rule locals_ok_update) simp
  with l assms(2) show ?thesis by (simp add: post_Assign_def locals_ok_simps)
qed

lemma tuple_types_total:
  assumes "locals_ok m st"
  shows "list_all (\<lambda>e. bound m (symbols cx) (e_location e)) seq \<Longrightarrow>
     \<exists>ts. tuple_types cx st seq = Some ts"
proof (induction seq)
  case Nil
  show ?case by simp
next
  case (Cons e es)
  then have "bound m (symbols cx) (e_location e)" by simp
  from boundD [OF assms this] obtain l where "g cx st (e_location e) = Some l" by blast
  moreover from Cons obtain ts where "tuple_types cx st es = Some ts" by auto
  ultimately show ?case by simp
qed

lemma post_Tuple_total:
  assumes "list_all (\<lambda>e. bound m (symbols cx) (e_location e)) seq" "lhs_bound m cx"
    "locals_ok m st"
  shows "\<exists>st'. post_Tuple cx loc seq st = Some st' \<and> locals_ok m st'"
proof -
  from tuple_types_total [OF assms(3,1)] obtain ts where t: "tuple_types cx st seq = Some ts"
    by blast
  from lhs_boundD [OF assms(3,2)] obtain n l where n: "lhs cx = Some n" and l: "g cx st n = Some l"
    by blast
  from l have s: "symtab st (symbols cx) n = Some l" by (simp add: g_def)
  have "locals_ok m (st\<lparr>symtab := (symtab st)(symbols cx :=
          (symtab st (symbols cx))(n \<mapsto> l\<lparr>l_type := Some (TupleType loc ts)\<rparr>))\<rparr>)"
    using assms(3) s by (rule locals_ok_update) simp
  with t n l show ?thesis by (simp add: post_Tuple_def)
qed

lemma call_type_total:
  assumes "Select_ok m cx left right" "locals_ok m st"
  shows "\<exists>call. call_type cx st left right = Some call"
proof -
  from assms have "lhs_bound m cx" by (simp add: Select_ok_def)
  from lhs_boundD [OF assms(2) this] obtain n l where n: "lhs cx = Some n" "g cx st n = Some l"
    by blast
  have "\<exists>fl. call_left cx st left right = Some fl"
  proof (cases left)
    case None
    show ?thesis
    proof (cases right)
      case None
      with \<open>left = None\<close> show ?thesis by (simp add: call_left_def)
    next
      case (Some r)
      with None assms(1) have "bound m (symbols cx) (e_location r)" by (simp add: Select_ok_def)
      from boundD [OF assms(2) this] obtain rl where "g cx st (e_location r) = Some rl" by blast
      with None Some show ?thesis by (simp add: call_left_def)
    qed
  next
    case (Some l')
    show ?thesis
    proof (cases right)
      case None
      with Some assms(1) have "bound m (symbols cx) (e_location l')" by (simp add: Select_ok_def)
      from boundD [OF assms(2) this] obtain ll where "g cx st (e_location l') = Some ll" by blast
      with None Some show ?thesis by (simp add: call_left_def)
    next
      case r: (Some r)
      with Some assms(1) have "typed m (symbols cx) (e_location l')"
        "typed m (symbols cx) (e_location r)"
        by (simp_all add: Select_ok_def)
      from typedD [OF assms(2) this(1)] typedD [OF assms(2) this(2)]
      obtain ll lt rl rt where "g cx st (e_location l') = Some ll" "l_type ll = Some lt"
        "g cx st (e_location r) = Some rl" "l_type rl = Some rt"
        by blast
      with Some r show ?thesis by (simp add: call_left_def)
    qed
  qed
  with n show ?thesis by (auto simp add: call_type_def)
qed

lemma locals_ok_Select_static:
  "locals_ok m (Select_static c cx sel call st) = locals_ok m st"
  by (simp add: Select_static_def locals_ok_simps split: option.splits)

lemma locals_ok_Select_dynamic:
  "locals_ok m (snd (Select_dynamic c sel call st)) = locals_ok m st"
  by (simp add: Select_dynamic_def locals_ok_simps Let_def)

lemma post_Select_total:
  assumes "Select_ok m cx (sel_expr sel) (sel_args sel)" "locals_ok m st"
  shows "\<exists>r. post_Select c cx sel st = Some r \<and> locals_ok m (snd r)"
proof -
  from call_type_total [OF assms] obtain call
    where "call_type cx st (sel_expr sel) (sel_args sel) = Some call" by blast
  with assms(2) show ?thesis
    by (simp add: post_Select_def Let_def locals_ok_Select_static locals_ok_Select_dynamic)
qed

lemma post_literal_total:
  assumes "lhs_bound m cx" "locals_ok m st"
  shows "\<exists>st'. post_Int c cx i st = Some st' \<and> locals_ok m st'"
    and "\<exists>st'. post_Float c cx i st = Some st' \<and> locals_ok m st'"
    and "\<exists>st'. post_Bool c cx i st = Some st' \<and> locals_ok m st'"
proof -
  from lhs_boundD [OF assms(2,1)] obtain n l where "lhs cx = Some n" "g cx st n = Some l"
    by blast
  with assms(2) show "\<exists>st'. post_Int c cx i st = Some st' \<and> locals_ok m st'"
    and "\<exists>st'. post_Float c cx i st = Some st' \<and> locals_ok m st'"
    and "\<exists>st'. post_Bool c cx i st = Some st' \<and> locals_ok m st'"
    by (simp_all add: post_Int_def post_Float_def post_Bool_def locals_ok_simps
          split: option.splits)
qed

lemma post_Lambda_total:
  assumes "parent cx = Some p" "Lambda_ok m cx lam p" "locals_ok m st"
  shows "\<exists>st'. post_Lambda c cx lam st = Some st' \<and> locals_ok m st'"
proof (cases p)
  case (Assign left right)
  with assms(2) have "bound m (symbols cx) (e_location left)" by simp
  from boundD [OF assms(3) this] obtain l where "g cx st (e_location left) = Some l" by blast
  with Assign assms show ?thesis by (simp add: post_Lambda_def locals_ok_simps)
next
  case (Field type)
  with assms(2) obtain ty where "type = Some ty" by auto
  with Field assms show ?thesis by (simp add: post_Lambda_def locals_ok_simps Let_def)
qed (use assms in \<open>simp_all add: post_Lambda_def\<close>)

lemma post_total:
  assumes "handler_ok m cx n" "locals_ok m st"
  shows "\<exists>st'. post c cx n st = Some st' \<and> locals_ok m st'"
proof (cases n)
  case (Free fr)
  with assms show ?thesis by (simp add: post_Free_total)
next
  case (Ref ref)
  with assms obtain p where "parent cx = Some p" "Ref_ok m cx ref p"
    by (auto split: option.splits)
  with Ref assms(2) show ?thesis by (simp add: post_Ref_total)
next
  case (Oftype expr type)
  with assms show ?thesis by (simp add: post_Oftype_total)
next
  case (Throw expr)
  with assms show ?thesis by (simp add: post_Throw_total)
next
  case (Assign left right)
  with assms show ?thesis by (simp add: post_Assign_total)
next
  case (Tuple loc seq)
  with assms show ?thesis by (simp add: post_Tuple_total)
next
  case (SelectNode sel)
  with assms post_Select_total [of m cx sel st c] show ?thesis by auto
next
  case (IntNode i)
  with assms show ?thesis by (simp add: post_literal_total)
next
  case (FloatNode f)
  with assms show ?thesis by (simp add: post_literal_total)
next
  case (BoolNode b)
  with assms show ?thesis by (simp add: post_literal_total)
next
  case (Lambda lam)
  with assms obtain p where "parent cx = Some p" "Lambda_ok m cx lam p"
    by (auto split: option.splits)
  with Lambda assms(2) show ?thesis by (simp add: post_Lambda_total)
next
  case (TypeNode ty)
  with assms(2) show ?thesis by (cases ty) (simp_all add: locals_ok_post_LookupRef)
qed (use assms in simp_all)

lemma walk_total:
  "tree_ok m stk t \<Longrightarrow> I st \<Longrightarrow>
     (\<And>cx n s. handler_ok m cx n \<Longrightarrow> I s \<Longrightarrow> \<exists>s'. h cx n s = Some s' \<and> I s') \<Longrightarrow>
     \<exists>st'. walk h stk t st = Some st' \<and> I st'"
  "trees_ok m stk ts \<Longrightarrow> I st \<Longrightarrow>
     (\<And>cx n s. handler_ok m cx n \<Longrightarrow> I s \<Longrightarrow> \<exists>s'. h cx n s = Some s' \<and> I s') \<Longrightarrow>
     \<exists>st'. walk_list h stk ts st = Some st' \<and> I st'"
proof (induction h stk t st and h stk ts st rule: walk_walk_list.induct)
  case (1 h stk a sc n kids st)
  from "1.prems"(1) have k: "trees_ok m (n # stk) kids"
    and o: "handler_ok m \<lparr>stack = stk, current = a, symbols = sc\<rparr> n"
    by simp_all
  from "1.IH" [OF k "1.prems"(2,3)] obtain s1 where
    s1: "walk_list h (n # stk) kids st = Some s1" "I s1" by blast
  from "1.prems"(3) [OF o s1(2)] obtain s2 where
    "h \<lparr>stack = stk, current = a, symbols = sc\<rparr> n s1 = Some s2" "I s2" by blast
  with s1 show ?case by simp
next
  case (2 h stk st)
  then show ?case by simp
next
  case (3 h stk t ts st)
  from "3.prems"(1) have t: "tree_ok m stk t" and ts: "trees_ok m stk ts" by simp_all
  from "3.IH"(1) [OF t "3.prems"(2,3)] obtain s1 where
    s1: "walk h stk t st = Some s1" "I s1" by blast
  from "3.IH"(2) [OF s1(1) ts s1(2) "3.prems"(3)] obtain s2 where
    "walk_list h stk ts s1 = Some s2" "I s2" by blast
  with s1 show ?case by simp
qed

lemma run_state_total:
  assumes "tree_ok (ast_locals ast) [] (ast_root ast)"
  shows "\<exists>r. run_state c ast = Some r"
proof -
  have "\<exists>r. walk (post c) [] (ast_root ast) (Infer_init c ast) = Some r
          \<and> locals_ok (ast_locals ast) r"
    using assms locals_ok_init by (rule walk_total(1)) (rule post_total)
  then show ?thesis by (auto simp add: run_state_def)
qed

section \<open>The claims\<close>

subsection \<open>C1: the dispatch annotation of a call site\<close>

text \<open>
  C1 says that the handler marks the node as dynamic dispatch when
  \<^verbatim>\<open>subtype.dynamic\<close> succeeds and as static dispatch when the static
  lookup succeeds and the constraint is emitted. The handler marks nothing:
  both rewrites are comments in the source. The call \<open>x = z.f(y)\<close>, not
  annotated, is not annotated after the handler either, be it that
  \<^verbatim>\<open>subtype.dynamic\<close> succeeds (first run, no error recorded) or that it
  fails and the static lookup finds a function whose constraint is emitted
  (second run).
\<close>

theorem C1_Select_annotation_counterexample:
  "map_option (sel_dispatch \<circ> fst)
     (post_Select (demo_collab True True demo_function) (demo_right_of ''x'') demo_select demo_infer)
     = Some None
   \<and> map_option (calls \<circ> snd)
     (post_Select (demo_collab True True demo_function) (demo_right_of ''x'') demo_select demo_infer)
     = Some [Dynamic [] demo_call]
   \<and> map_option (ok \<circ> snd)
     (post_Select (demo_collab True True demo_function) (demo_right_of ''x'') demo_select demo_infer)
     = Some True
   \<and> map_option (sel_dispatch \<circ> fst)
     (post_Select (demo_collab True False demo_function) (demo_right_of ''x'') demo_select demo_infer)
     = Some None
   \<and> map_option (calls \<circ> snd)
     (post_Select (demo_collab True False demo_function) (demo_right_of ''x'') demo_select demo_infer)
     = Some [Dynamic [] demo_call, Subtype (Some (LookupRef ''f'' 0 [] None)) (Some demo_call)]
   \<and> map_option (ok \<circ> snd)
     (post_Select (demo_collab True False demo_function) (demo_right_of ''x'') demo_select demo_infer)
     = Some True"
proof -
  have e: "f_left demo_call \<noteq> None \<and> length (snd (sel_typeref demo_select)) = 1"
    by (simp add: demo_call_def demo_select_def)
  have d: "sel_dispatch demo_select = None" by (simp add: demo_select_def)
  have "post_Select (demo_collab True True demo_function) (demo_right_of ''x'') demo_select demo_infer
      = Some (demo_select, demo_infer\<lparr>subtype_st := 1, calls := [Dynamic [] demo_call]\<rparr>)"
    unfolding post_Select_def demo_call_type
    using e by (simp add: Select_dynamic_def dynamic_def Let_def demo_collab_def demo_infer_def)
  moreover
  have "post_Select (demo_collab True False demo_function) (demo_right_of ''x'') demo_select demo_infer
      = Some (demo_select, demo_infer\<lparr>subtype_st := 2,
          calls := [Dynamic [] demo_call, Subtype (Some (LookupRef ''f'' 0 [] None)) (Some demo_call)]\<rparr>)"
    unfolding post_Select_def demo_call_type
    using e by (simp add: Select_dynamic_def Select_static_def
          dynamic_def subtype_def Let_def demo_collab_def demo_infer_def demo_function_def
          demo_select_def)
  ultimately show ?thesis using d by (simp add: demo_infer_def)
qed

text \<open>
  C1, amended. The handler of a \<^verbatim>\<open>Select\<close> node leaves the node as it
  found it, whatever further fields the node has: no dispatch annotation is
  written. When
  \<^verbatim>\<open>subtype.dynamic\<close> succeeds the handler returns at once: its only
  call to the solver is that one and no error is recorded. When it does not
  and the static lookup yields a \<^verbatim>\<open>LookupRef\<close>, the constraint
  \<open>find <: call\<close> is the last call to the solver and no error is recorded.
\<close>

theorem C1_Select_node_unchanged:
  assumes "post_Select c cx sel st = Some (sel', st')"
  shows "sel' = sel
    \<and> (\<forall>call. call_type cx st (sel_expr sel) (sel_args sel) = Some call \<longrightarrow>
         (fst (Select_dynamic c sel call st) \<longrightarrow>
            new_out st st' = []
            \<and> new_calls st st' = [Dynamic (dynamic_candidates c sel call st) call])
       \<and> (\<forall>found. \<not> fst (Select_dynamic c sel call st)
            \<and> static_lookup c cx sel (snd (Select_dynamic c sel call st)) = Some found
            \<and> t_kind found = KLookupRef \<longrightarrow>
            new_out st st' = []
            \<and> new_calls (snd (Select_dynamic c sel call st)) st'
                = [Subtype (Some found) (Some call)]))"
  using assms
  by (auto simp add: post_Select_def Let_def new_calls_def new_out_def
       Select_dynamic_calls Select_dynamic_pass Select_dynamic_fst Select_static_def
       static_lookup_def subtype_def
       split: option.splits if_splits)

theorem C1_Select_node_unchanged_witness:
  "post_Select (demo_collab True True demo_function) (demo_right_of ''x'') demo_select demo_infer
     = Some (demo_select, demo_infer\<lparr>subtype_st := 1, calls := [Dynamic [] demo_call]\<rparr>)
   \<and> call_type (demo_right_of ''x'') demo_infer (sel_expr demo_select) (sel_args demo_select)
     = Some demo_call
   \<and> fst (Select_dynamic (demo_collab True True demo_function) demo_select demo_call demo_infer)
   \<and> new_out demo_infer (demo_infer\<lparr>subtype_st := 1, calls := [Dynamic [] demo_call]\<rparr>) = []
   \<and> new_calls demo_infer (demo_infer\<lparr>subtype_st := 1, calls := [Dynamic [] demo_call]\<rparr>)
       = [Dynamic [] demo_call]"
proof -
  let ?c = "demo_collab True True demo_function"
  have e: "f_left demo_call \<noteq> None \<and> length (snd (sel_typeref demo_select)) = 1"
    by (simp add: demo_call_def demo_select_def)
  have p: "post_Select ?c (demo_right_of ''x'') demo_select demo_infer
      = Some (demo_select, demo_infer\<lparr>subtype_st := 1, calls := [Dynamic [] demo_call]\<rparr>)"
    unfolding post_Select_def demo_call_type
    using e by (simp add: Select_dynamic_def dynamic_def Let_def demo_collab_def demo_infer_def)
  have d: "fst (Select_dynamic ?c demo_select demo_call demo_infer)"
    using e by (simp add: Select_dynamic_def dynamic_def Let_def demo_collab_def)
  have cand: "dynamic_candidates ?c demo_select demo_call demo_infer = []"
    by (simp add: dynamic_candidates_def demo_collab_def)
  from C1_Select_node_unchanged [OF p] demo_call_type d cand
  have "new_out demo_infer (demo_infer\<lparr>subtype_st := 1, calls := [Dynamic [] demo_call]\<rparr>) = []
    \<and> new_calls demo_infer (demo_infer\<lparr>subtype_st := 1, calls := [Dynamic [] demo_call]\<rparr>)
        = [Dynamic [] demo_call]"
    by simp
  with p d demo_call_type show ?thesis by simp
qed

subsection \<open>C2: dynamic and static dispatch\<close>

text \<open>
  C2. For every \<^verbatim>\<open>Select\<close> node, with \<open>call\<close> the function type built
  for it: dynamic dispatch is attempted (the solver is asked
  \<^verbatim>\<open>subtype.dynamic\<close>, first of all) if and only if the argument side
  of \<open>call\<close> exists and the \<open>typeref\<close> is a single name; whenever dynamic
  dispatch is not attempted or \<^verbatim>\<open>subtype.dynamic\<close> returns false,
  static dispatch is attempted: a failed lookup records the error "Couldn't
  find this function." and submits nothing, a result that is not a
  \<^verbatim>\<open>LookupRef\<close> records "Expected a function but found ..." and submits
  nothing, and otherwise the constraint \<open>find <: call\<close> is submitted to the
  solver and no error is recorded.
\<close>

theorem C2_Select_dispatch:
  assumes "call_type cx st (sel_expr sel) (sel_args sel) = Some call"
  shows "\<exists>st'. post_Select c cx sel st = Some (sel, st')
    \<and> ((\<exists>k \<in> set (new_calls st st'). is_Dynamic k) \<longleftrightarrow> dynamic_eligible sel call)
    \<and> (dynamic_eligible sel call \<longrightarrow>
         take 1 (new_calls st st') = [Dynamic (dynamic_candidates c sel call st) call])
    \<and> (\<not> dynamic_eligible sel call
         \<or> \<not> fst (dynamic_fn c (subtype_st st) (dynamic_candidates c sel call st) call) \<longrightarrow>
        (case static_lookup c cx sel (snd (Select_dynamic c sel call st)) of
            None \<Rightarrow>
              new_out st st' = [[Loc (sel_location sel), Str ''Couldn't find this function.'',
                                 Text (sel_location sel)]]
              \<and> new_calls (snd (Select_dynamic c sel call st)) st' = []
          | Some found \<Rightarrow>
              if t_kind found \<noteq> KLookupRef
              then new_out st st' = [[Loc (sel_location sel), Str ''Expected a function but found '',
                                      Str (kindname c (t_kind found)), Text (sel_location sel)]]
                   \<and> new_calls (snd (Select_dynamic c sel call st)) st' = []
              else new_out st st' = []
                   \<and> new_calls (snd (Select_dynamic c sel call st)) st'
                       = [Subtype (Some found) (Some call)]))"
  using assms
  by (auto simp add: post_Select_def Let_def new_calls_def new_out_def is_Dynamic_def
       Select_dynamic_calls Select_dynamic_pass Select_dynamic_fst Select_static_def
       static_lookup_def error_def subtype_def couldnt_find_def expected_function_def
       split: option.splits)

theorem C2_Select_dispatch_witness:
  "call_type (demo_right_of ''x'') demo_infer (sel_expr demo_select) (sel_args demo_select)
     = Some demo_call
   \<and> dynamic_eligible demo_select demo_call
   \<and> map_option (calls \<circ> snd)
       (post_Select (demo_collab True False demo_none) (demo_right_of ''x'') demo_select demo_infer)
      = Some [Dynamic [] demo_call]
   \<and> map_option (out \<circ> snd)
       (post_Select (demo_collab True False demo_none) (demo_right_of ''x'') demo_select demo_infer)
      = Some [[Loc ''sel'', Str ''Couldn't find this function.'', Text ''sel'']]
   \<and> map_option (calls \<circ> snd)
       (post_Select (demo_collab True False demo_class) (demo_right_of ''x'') demo_select demo_infer)
      = Some [Dynamic [] demo_call]
   \<and> map_option (out \<circ> snd)
       (post_Select (demo_collab True False demo_class) (demo_right_of ''x'') demo_select demo_infer)
      = Some [[Loc ''sel'', Str ''Expected a function but found '', Str ''TypeRef'', Text ''sel'']]
   \<and> map_option (calls \<circ> snd)
       (post_Select (demo_collab True False demo_function) (demo_right_of ''x'') demo_select demo_infer)
      = Some [Dynamic [] demo_call, Subtype (Some (LookupRef ''f'' 0 [] None)) (Some demo_call)]
   \<and> map_option (out \<circ> snd)
       (post_Select (demo_collab True False demo_function) (demo_right_of ''x'') demo_select demo_infer)
      = Some []"
proof -
  let ?cx = "demo_right_of ''x''"
  have h: "call_type ?cx demo_infer (sel_expr demo_select) (sel_args demo_select) = Some demo_call"
    by (rule demo_call_type)
  have e: "dynamic_eligible demo_select demo_call"
    by (simp add: dynamic_eligible_def demo_select_def demo_call_def)
  have c0: "calls demo_infer = []" "out demo_infer = []" by (simp_all add: demo_infer_def)
  have cand: "dynamic_candidates (demo_collab True False tr) demo_select demo_call demo_infer = []" for tr
    by (simp add: dynamic_candidates_def demo_collab_def)
  have nd: "\<not> fst (dynamic_fn (demo_collab True False tr) (subtype_st demo_infer)
              (dynamic_candidates (demo_collab True False tr) demo_select demo_call demo_infer)
              demo_call)" for tr
    by (simp add: demo_collab_def)
  have cd: "calls (snd (Select_dynamic (demo_collab True False tr) demo_select demo_call demo_infer))
      = [Dynamic [] demo_call]" for tr
    using e by (simp add: Select_dynamic_calls cand c0)
  have l1: "static_lookup (demo_collab True False demo_none) ?cx demo_select s = None" for s
    by (simp add: static_lookup_def demo_collab_def demo_none_def)
  have l2: "static_lookup (demo_collab True False demo_class) ?cx demo_select s
      = Some (TypeRef ''f'' [TypeName ''f'' []])" for s
    by (simp add: static_lookup_def demo_collab_def demo_class_def demo_select_def)
  have l3: "static_lookup (demo_collab True False demo_function) ?cx demo_select s
      = Some (LookupRef ''f'' 0 [] None)" for s
    by (simp add: static_lookup_def demo_collab_def demo_function_def demo_select_def)
  have k: "kindname (demo_collab True False demo_class) KTypeRef = ''TypeRef''"
    "sel_location demo_select = ''sel''"
    by (simp_all add: demo_collab_def demo_select_def)
  from C2_Select_dispatch [OF h, of "demo_collab True False demo_none"]
  obtain s1 where p1: "post_Select (demo_collab True False demo_none) ?cx demo_select demo_infer = Some (demo_select, s1)"
    and d1: "dynamic_eligible demo_select demo_call \<longrightarrow>
         take 1 (new_calls demo_infer s1)
           = [Dynamic (dynamic_candidates (demo_collab True False demo_none) demo_select demo_call demo_infer) demo_call]"
    and r1: "\<not> dynamic_eligible demo_select demo_call
         \<or> \<not> fst (dynamic_fn (demo_collab True False demo_none) (subtype_st demo_infer)
                 (dynamic_candidates (demo_collab True False demo_none) demo_select demo_call demo_infer) demo_call) \<longrightarrow>
        (case static_lookup (demo_collab True False demo_none) ?cx demo_select
                (snd (Select_dynamic (demo_collab True False demo_none) demo_select demo_call demo_infer)) of
            None \<Rightarrow>
              new_out demo_infer s1
                = [[Loc (sel_location demo_select), Str ''Couldn't find this function.'',
                    Text (sel_location demo_select)]]
              \<and> new_calls (snd (Select_dynamic (demo_collab True False demo_none) demo_select demo_call demo_infer)) s1 = []
          | Some found \<Rightarrow>
              if t_kind found \<noteq> KLookupRef
              then new_out demo_infer s1
                     = [[Loc (sel_location demo_select), Str ''Expected a function but found '',
                         Str (kindname (demo_collab True False demo_none) (t_kind found)), Text (sel_location demo_select)]]
                   \<and> new_calls (snd (Select_dynamic (demo_collab True False demo_none) demo_select demo_call demo_infer)) s1 = []
              else new_out demo_infer s1 = []
                   \<and> new_calls (snd (Select_dynamic (demo_collab True False demo_none) demo_select demo_call demo_infer)) s1
                       = [Subtype (Some found) (Some demo_call)])"
    by blast
  from C2_Select_dispatch [OF h, of "demo_collab True False demo_class"]
  obtain s2 where p2: "post_Select (demo_collab True False demo_class) ?cx demo_select demo_infer = Some (demo_select, s2)"
    and d2: "dynamic_eligible demo_select demo_call \<longrightarrow>
         take 1 (new_calls demo_infer s2)
           = [Dynamic (dynamic_candidates (demo_collab True False demo_class) demo_select demo_call demo_infer) demo_call]"
    and r2: "\<not> dynamic_eligible demo_select demo_call
         \<or> \<not> fst (dynamic_fn (demo_collab True False demo_class) (subtype_st demo_infer)
                 (dynamic_candidates (demo_collab True False demo_class) demo_select demo_call demo_infer) demo_call) \<longrightarrow>
        (case static_lookup (demo_collab True False demo_class) ?cx demo_select
                (snd (Select_dynamic (demo_collab True False demo_class) demo_select demo_call demo_infer)) of
            None \<Rightarrow>
              new_out demo_infer s2
                = [[Loc (sel_location demo_select), Str ''Couldn't find this function.'',
                    Text (sel_location demo_select)]]
              \<and> new_calls (snd (Select_dynamic (demo_collab True False demo_class) demo_select demo_call demo_infer)) s2 = []
          | Some found \<Rightarrow>
              if t_kind found \<noteq> KLookupRef
              then new_out demo_infer s2
                     = [[Loc (sel_location demo_select), Str ''Expected a function but found '',
                         Str (kindname (demo_collab True False demo_class) (t_kind found)), Text (sel_location demo_select)]]
                   \<and> new_calls (snd (Select_dynamic (demo_collab True False demo_class) demo_select demo_call demo_infer)) s2 = []
              else new_out demo_infer s2 = []
                   \<and> new_calls (snd (Select_dynamic (demo_collab True False demo_class) demo_select demo_call demo_infer)) s2
                       = [Subtype (Some found) (Some demo_call)])"
    by blast
  from C2_Select_dispatch [OF h, of "demo_collab True False demo_function"]
  obtain s3 where p3: "post_Select (demo_collab True False demo_function) ?cx demo_select demo_infer = Some (demo_select, s3)"
    and d3: "dynamic_eligible demo_select demo_call \<longrightarrow>
         take 1 (new_calls demo_infer s3)
           = [Dynamic (dynamic_candidates (demo_collab True False demo_function) demo_select demo_call demo_infer) demo_call]"
    and r3: "\<not> dynamic_eligible demo_select demo_call
         \<or> \<not> fst (dynamic_fn (demo_collab True False demo_function) (subtype_st demo_infer)
                 (dynamic_candidates (demo_collab True False demo_function) demo_select demo_call demo_infer) demo_call) \<longrightarrow>
        (case static_lookup (demo_collab True False demo_function) ?cx demo_select
                (snd (Select_dynamic (demo_collab True False demo_function) demo_select demo_call demo_infer)) of
            None \<Rightarrow>
              new_out demo_infer s3
                = [[Loc (sel_location demo_select), Str ''Couldn't find this function.'',
                    Text (sel_location demo_select)]]
              \<and> new_calls (snd (Select_dynamic (demo_collab True False demo_function) demo_select demo_call demo_infer)) s3 = []
          | Some found \<Rightarrow>
              if t_kind found \<noteq> KLookupRef
              then new_out demo_infer s3
                     = [[Loc (sel_location demo_select), Str ''Expected a function but found '',
                         Str (kindname (demo_collab True False demo_function) (t_kind found)), Text (sel_location demo_select)]]
                   \<and> new_calls (snd (Select_dynamic (demo_collab True False demo_function) demo_select demo_call demo_infer)) s3 = []
              else new_out demo_infer s3 = []
                   \<and> new_calls (snd (Select_dynamic (demo_collab True False demo_function) demo_select demo_call demo_infer)) s3
                       = [Subtype (Some found) (Some demo_call)])"
    by blast
  from d1 e have t1: "take 1 (calls s1) = [Dynamic [] demo_call]"
    by (simp add: new_calls_def c0 cand)
  from d2 e have t2: "take 1 (calls s2) = [Dynamic [] demo_call]"
    by (simp add: new_calls_def c0 cand)
  from d3 e have t3: "take 1 (calls s3) = [Dynamic [] demo_call]"
    by (simp add: new_calls_def c0 cand)
  from r1 nd have o1: "out s1 = [[Loc ''sel'', Str ''Couldn't find this function.'', Text ''sel'']]"
    and n1: "drop 1 (calls s1) = []"
    by (simp_all add: l1 k new_out_def new_calls_def c0 cd)
  from r2 nd have o2: "out s2
      = [[Loc ''sel'', Str ''Expected a function but found '', Str ''TypeRef'', Text ''sel'']]"
    and n2: "drop 1 (calls s2) = []"
    by (simp_all add: l2 k new_out_def new_calls_def c0 cd)
  from r3 nd have o3: "out s3 = []"
    and n3: "drop 1 (calls s3) = [Subtype (Some (LookupRef ''f'' 0 [] None)) (Some demo_call)]"
    by (simp_all add: l3 k new_out_def new_calls_def c0 cd)
  have c1: "calls s1 = [Dynamic [] demo_call]"
    using append_take_drop_id [of 1 "calls s1"] by (simp only: t1 n1 append_Nil2)
  have c2: "calls s2 = [Dynamic [] demo_call]"
    using append_take_drop_id [of 1 "calls s2"] by (simp only: t2 n2 append_Nil2)
  have c3: "calls s3 = [Dynamic [] demo_call, Subtype (Some (LookupRef ''f'' 0 [] None)) (Some demo_call)]"
    using append_take_drop_id [of 1 "calls s3"] by (simp only: t3 n3 append.simps)
  from h e p1 p2 p3 c1 c2 c3 o1 o2 o3 show ?thesis
    by simp
qed

subsection \<open>C3: the constraint of a literal\<close>

text \<open>
  C3 says that the visitor emits the constraint of a literal for every
  \<^verbatim>\<open>Int\<close>, \<^verbatim>\<open>Float\<close> and \<^verbatim>\<open>Bool\<close> node. It does not where
  the nominal type is not in scope: for the literal of \<open>x = 3\<close>, with no
  \<open>Integer\<close> in scope, the handler returns and has called the solver not once.
\<close>

theorem C3_literal_constraints_counterexample:
  "lhs (demo_right_of ''x'') = Some ''x''
   \<and> g (demo_right_of ''x'') demo_infer ''x'' = Some demo_x
   \<and> map_option calls
       (post_Int (demo_collab True True demo_none) (demo_right_of ''x'') ''3'' demo_infer)
       = Some []"
proof -
  have "map_option calls
       (post_Int (demo_collab True True demo_none) (demo_right_of ''x'') ''3'' demo_infer)
       = Some []"
    by (simp add: post_Int_def make_constant_type_def Let_def error_def
          demo_collab_def demo_none_def demo_infer_def)
  then show ?thesis by (simp add: demo_lhs demo_g)
qed

text \<open>
  C3, amended. For every \<^verbatim>\<open>Int\<close> or \<^verbatim>\<open>Float\<close> literal node whose
  nominal type resolves in the current scope, the visitor emits the one
  constraint \<open>g(lhs).type <: imm & Integer\<close> (respectively \<open>imm & Float\<close>),
  the literal type being an upper bound of the left-hand local of the
  enclosing assignment; for every \<^verbatim>\<open>Bool\<close> literal node whose nominal
  type resolves the direction is reversed: it emits
  \<open>imm & Bool <: g(lhs).type\<close>, a lower bound. No error is recorded. Here
  \<open>l\<close> is the left-hand local of the enclosing assignment.
\<close>

theorem C3_literal_constraints:
  assumes "lhs cx = Some n" and "g cx st n = Some l"
  shows "(in_scope c cx st ''Integer'' \<longrightarrow>
           (\<exists>st'. post_Int c cx i st = Some st'
              \<and> new_calls st st' = [Subtype (l_type l) (Some (imm_and ''Integer''))]
              \<and> new_out st st' = []))
       \<and> (in_scope c cx st ''Float'' \<longrightarrow>
           (\<exists>st'. post_Float c cx i st = Some st'
              \<and> new_calls st st' = [Subtype (l_type l) (Some (imm_and ''Float''))]
              \<and> new_out st st' = []))
       \<and> (in_scope c cx st ''Bool'' \<longrightarrow>
           (\<exists>st'. post_Bool c cx i st = Some st'
              \<and> new_calls st st' = [Subtype (Some (imm_and ''Bool'')) (l_type l)]
              \<and> new_out st st' = []))"
  using assms
  by (simp add: post_Int_def post_Float_def post_Bool_def make_constant_type_eq
        name_int_def name_float_def name_bool_def subtype_def Let_def new_calls_def new_out_def)

theorem C3_literal_constraints_witness:
  "lhs (demo_right_of ''x'') = Some ''x''
   \<and> g (demo_right_of ''x'') demo_infer ''x'' = Some demo_x
   \<and> in_scope (demo_collab True True demo_function) (demo_right_of ''x'') demo_infer ''Integer''
   \<and> in_scope (demo_collab True True demo_function) (demo_right_of ''x'') demo_infer ''Float''
   \<and> in_scope (demo_collab True True demo_function) (demo_right_of ''x'') demo_infer ''Bool''
   \<and> map_option calls
       (post_Int (demo_collab True True demo_function) (demo_right_of ''x'') ''3'' demo_infer)
       = Some [Subtype (Some (InferType ''x'' 0))
                (Some (IsectType ''Integer''
                   [Some (TypeRef ''Integer'' [TypeName ''Integer'' []]), Some (Imm ''imm'')]))]
   \<and> map_option calls
       (post_Float (demo_collab True True demo_function) (demo_right_of ''x'') ''3.0'' demo_infer)
       = Some [Subtype (Some (InferType ''x'' 0))
                (Some (IsectType ''Float''
                   [Some (TypeRef ''Float'' [TypeName ''Float'' []]), Some (Imm ''imm'')]))]
   \<and> map_option calls
       (post_Bool (demo_collab True True demo_function) (demo_right_of ''x'') ''true'' demo_infer)
       = Some [Subtype
                (Some (IsectType ''Bool''
                   [Some (TypeRef ''Bool'' [TypeName ''Bool'' []]), Some (Imm ''imm'')]))
                (Some (InferType ''x'' 0))]"
proof -
  let ?c = "demo_collab True True demo_function"
  let ?cx = "demo_right_of ''x''"
  have h1: "lhs ?cx = Some ''x''" by (rule demo_lhs)
  have h2: "g ?cx demo_infer ''x'' = Some demo_x" by (rule demo_g)
  have s: "in_scope ?c ?cx demo_infer ''Integer''" "in_scope ?c ?cx demo_infer ''Float''"
    "in_scope ?c ?cx demo_infer ''Bool''"
    by (simp_all add: in_scope_def demo_collab_def demo_function_def)
  have c0: "calls demo_infer = []" by (simp add: demo_infer_def)
  from C3_literal_constraints [OF h1 h2, of ?c "''3''"] s
  obtain si where i: "post_Int ?c ?cx ''3'' demo_infer = Some si"
    and ci: "new_calls demo_infer si = [Subtype (l_type demo_x) (Some (imm_and ''Integer''))]"
    by blast
  from C3_literal_constraints [OF h1 h2, of ?c "''3.0''"] s
  obtain sf where f: "post_Float ?c ?cx ''3.0'' demo_infer = Some sf"
    and cf: "new_calls demo_infer sf = [Subtype (l_type demo_x) (Some (imm_and ''Float''))]"
    by blast
  from C3_literal_constraints [OF h1 h2, of ?c "''true''"] s
  obtain sb where b: "post_Bool ?c ?cx ''true'' demo_infer = Some sb"
    and cb: "new_calls demo_infer sb = [Subtype (Some (imm_and ''Bool'')) (l_type demo_x)]"
    by blast
  from h1 h2 s i ci f cf b cb c0 show ?thesis
    by (simp add: new_calls_def imm_and_def constant_typeref_def demo_x_def)
qed

subsection \<open>C4: the result of the pass\<close>

text \<open>
  C4. For every AST, \<^verbatim>\<open>run(ast, error_stream)\<close> returns true if and only
  if the visitor recorded no errors and the solver recorded no errors; errors
  are accumulated to the stream and never thrown, so neither subsystem's
  failure stops the traversal. In turn: the value of \<open>run\<close> is that
  conjunction, read off the state \<open>r\<close> of the pass after the traversal; an
  error is a diagnostic added to the stream by a handler that returns, both
  for one handler and for the traversal of a tree; the traversal of a tree
  adds the same calls to the solver and leaves the same locals whether or not
  errors have been recorded before; and the flag of the solver is read by no
  handler, only at the end. Nothing stops the traversal: whatever the solver
  and the lookup engine answer (\<open>c\<close> is any) and whatever has been recorded
  so far, a handler returns on every node that is well-formed in the sense of
  \<open>handler_ok\<close>, and on a well-formed tree the traversal returns and \<open>run\<close>
  returns its verdict.
\<close>

theorem C4_run:
  "run c ast = map_option (\<lambda>r. out r = [] \<and> subtype_ok c (subtype_st r)) (run_state c ast)
   \<and> (\<forall>cx n st st'. post c cx n st = Some st' \<longrightarrow> accumulates st st')
   \<and> (\<forall>stk t st st'. walk (post c) stk t st = Some st' \<longrightarrow> accumulates st st')
   \<and> (\<forall>stk t s1 s2. same_work s1 s2 \<longrightarrow>
         rel_option same_work (walk (post c) stk t s1) (walk (post c) stk t s2))
   \<and> (\<forall>f. run_state (c\<lparr>subtype_ok := f\<rparr>) ast = run_state c ast)
   \<and> (\<forall>m cx n st. handler_ok m cx n \<and> locals_ok m st \<longrightarrow>
         (\<exists>st'. post c cx n st = Some st' \<and> accumulates st st' \<and> locals_ok m st'))
   \<and> (tree_ok (ast_locals ast) [] (ast_root ast) \<longrightarrow>
         (\<exists>r. run_state c ast = Some r \<and> accumulates (Infer_init c ast) r
              \<and> run c ast = Some (out r = [] \<and> subtype_ok c (subtype_st r))))"
proof -
  have w: "accumulates st st'" if "walk (post c) stk t st = Some st'" for stk t st st'
    using that
    by (rule walk_invariant(1)) (auto intro: accumulates_post accumulates_refl accumulates_trans)
  have r: "run c ast = map_option (\<lambda>r. out r = [] \<and> subtype_ok c (subtype_st r)) (run_state c ast)"
  proof (cases "run_state c ast")
    case None
    then show ?thesis by (simp add: run_def)
  next
    case (Some r)
    then have "accumulates (Infer_init c ast) r"
      unfolding run_state_def by (rule w)
    then have "ok r = (out r = [])"
      by (simp add: accumulates_def Infer_init_def)
    with Some show ?thesis by (simp add: run_def)
  qed
  have s: "rel_option same_work (walk (post c) stk t s1) (walk (post c) stk t s2)"
    if "same_work s1 s2" for stk t s1 s2
    using that by (rule walk_rel(1)) (rule same_work_post)
  have "post (c\<lparr>subtype_ok := f\<rparr>) = post c" for f
    by (intro ext) (rule post_subtype_ok)
  then have f: "run_state (c\<lparr>subtype_ok := f\<rparr>) ast = run_state c ast" for f
    by (simp add: run_state_def Infer_init_def)
  have h: "\<exists>st'. post c cx n st = Some st' \<and> accumulates st st' \<and> locals_ok m st'"
    if "handler_ok m cx n \<and> locals_ok m st" for m cx n st
  proof -
    from that post_total [of m cx n st c] obtain st' where
      "post c cx n st = Some st'" "locals_ok m st'" by blast
    then show ?thesis by (auto intro: accumulates_post)
  qed
  have t: "\<exists>r. run_state c ast = Some r \<and> accumulates (Infer_init c ast) r
      \<and> run c ast = Some (out r = [] \<and> subtype_ok c (subtype_st r))"
    if "tree_ok (ast_locals ast) [] (ast_root ast)"
  proof -
    from run_state_total [OF that] obtain r' where r': "run_state c ast = Some r'" by blast
    then have "accumulates (Infer_init c ast) r'"
      unfolding run_state_def by (rule w)
    with r r' show ?thesis by simp
  qed
  have a: "\<forall>cx n st st'. post c cx n st = Some st' \<longrightarrow> accumulates st st'"
    by (auto intro: accumulates_post)
  from r a w s f h t show ?thesis
    by (intro conjI allI impI) blast+
qed

theorem C4_run_witness:
  "tree_ok (ast_locals demo_big_ast) [] (ast_root demo_big_ast)
   \<and> run (demo_collab False False demo_none) demo_big_ast = Some False
   \<and> map_option (length \<circ> out) (run_state (demo_collab False False demo_none) demo_big_ast)
       = Some 6
   \<and> map_option (length \<circ> calls) (run_state (demo_collab False False demo_none) demo_big_ast)
       = Some 5
   \<and> handler_ok demo_locals (demo_at (Lambda demo_lambda)) (Ref ''y'')
   \<and> locals_ok demo_locals demo_infer
   \<and> map_option out
        (post (demo_collab False False demo_none) (demo_at (Lambda demo_lambda)) (Ref ''y'')
           demo_infer)
       = Some [[Loc ''y'', Str ''The return value is not a subtype of the result type.'',
                Text ''y'', Loc ''U64'', Str ''The result type is here.'', Text ''U64'']]
   \<and> run (demo_collab True True demo_function) demo_ok_ast = Some True
   \<and> run (demo_collab False True demo_function) demo_ok_ast = Some False
   \<and> map_option out (run_state (demo_collab False True demo_function) demo_ok_ast) = Some []
   \<and> run (demo_collab True True demo_function) demo_ast = Some False
   \<and> map_option out (run_state (demo_collab True True demo_function) demo_ast)
       = Some [[Loc ''x'', Str ''Variable used before assignment'', Text ''x'']]
   \<and> map_option calls (run_state (demo_collab True True demo_function) demo_ast)
       = Some [Subtype (Some (InferType ''x'' 0)) (Some (InferType ''w'' 3)),
               Subtype (Some (InferType ''x'' 0))
                 (Some (IsectType ''Integer''
                    [Some (TypeRef ''Integer'' [TypeName ''Integer'' []]), Some (Imm ''imm'')]))]
   \<and> post (demo_collab True True demo_function) (demo_right_of ''w'') (Ref ''x'') demo_infer
       = Some (error (use_before_assign ''x'')
           (snd (subtype (demo_collab True True demo_function)
              (Some (InferType ''x'' 0)) (Some (InferType ''w'' 3)) demo_infer)))
   \<and> accumulates demo_infer
       (error (use_before_assign ''x'')
           (snd (subtype (demo_collab True True demo_function)
              (Some (InferType ''x'' 0)) (Some (InferType ''w'' 3)) demo_infer)))
   \<and> same_work demo_infer (error [] demo_infer)
   \<and> rel_option same_work
       (walk (post (demo_collab True True demo_function)) [] (ast_root demo_ast) demo_infer)
       (walk (post (demo_collab True True demo_function)) [] (ast_root demo_ast)
          (error [] demo_infer))"
proof -
  let ?c = "demo_collab True True demo_function"
  let ?d = "demo_collab False False demo_none"
  note t = C4_run [of ?c demo_ast]
  have bt: "tree_ok (ast_locals demo_big_ast) [] (ast_root demo_big_ast)"
    by (simp add: demo_big_ast_def demo_plain_select_def demo_lambda_def demo_locals_def
          bound_def typed_def lhs_bound_def Select_ok_def lhs_def parent_def
          demo_x_def demo_w_def demo_y_def demo_z_def)
  have bo: "map_option (length \<circ> out) (run_state ?d demo_big_ast) = Some 6"
    by (simp add: run_state_def demo_big_ast_def Infer_init_def demo_defs
         post_Ref_def post_Ref_check_def post_Assign_def post_Int_def make_constant_type_def
         post_Oftype_def post_Free_def post_Throw_def post_Select_def Select_dynamic_def
         Select_static_def dynamic_def call_type_def call_left_def post_Lambda_def
         parent_def lhs_def g_def subtype_def error_def Let_def)
  have bk: "map_option (length \<circ> calls) (run_state ?d demo_big_ast) = Some 5"
    by (simp add: run_state_def demo_big_ast_def Infer_init_def demo_defs
         post_Ref_def post_Ref_check_def post_Assign_def post_Int_def make_constant_type_def
         post_Oftype_def post_Free_def post_Throw_def post_Select_def Select_dynamic_def
         Select_static_def dynamic_def call_type_def call_left_def post_Lambda_def
         parent_def lhs_def g_def subtype_def error_def Let_def)
  from C4_run [of ?d demo_big_ast] bt obtain br where
    br: "run_state ?d demo_big_ast = Some br"
    and bv: "run ?d demo_big_ast = Some (out br = [] \<and> subtype_ok ?d (subtype_st br))"
    by blast
  from bo br have "out br \<noteq> []" by auto
  with bv have bf: "run ?d demo_big_ast = Some False" by simp
  have ho: "handler_ok demo_locals (demo_at (Lambda demo_lambda)) (Ref ''y'')"
    by (simp add: parent_def demo_at_def demo_lambda_def bound_def demo_locals_def)
  have lo: "locals_ok demo_locals demo_infer"
    by (simp add: locals_ok_def demo_infer_def)
  from C4_run [of ?d demo_ast] ho lo obtain hs where
    hs: "post ?d (demo_at (Lambda demo_lambda)) (Ref ''y'') demo_infer = Some hs"
    by blast
  have hv: "map_option out (post ?d (demo_at (Lambda demo_lambda)) (Ref ''y'') demo_infer)
       = Some [[Loc ''y'', Str ''The return value is not a subtype of the result type.'',
                Text ''y'', Loc ''U64'', Str ''The result type is here.'', Text ''U64'']]"
    by (simp add: post_Ref_def post_Ref_check_def parent_def g_def subtype_def error_def Let_def
          demo_defs)
  have o: "map_option out (run_state ?c demo_ast)
      = Some [[Loc ''x'', Str ''Variable used before assignment'', Text ''x'']]"
    by (simp add: run_state_def demo_ast_def Infer_init_def demo_defs
         post_Ref_def post_Ref_check_def post_Assign_def post_Int_def make_constant_type_def
         parent_def lhs_def g_def subtype_def error_def use_before_assign_def Let_def)
  have k: "map_option calls (run_state ?c demo_ast)
      = Some [Subtype (Some (InferType ''x'' 0)) (Some (InferType ''w'' 3)),
               Subtype (Some (InferType ''x'' 0))
                 (Some (IsectType ''Integer''
                    [Some (TypeRef ''Integer'' [TypeName ''Integer'' []]), Some (Imm ''imm'')]))]"
    by (simp add: run_state_def demo_ast_def Infer_init_def demo_defs
         post_Ref_def post_Ref_check_def post_Assign_def post_Int_def make_constant_type_def
         parent_def lhs_def g_def subtype_def error_def use_before_assign_def Let_def
         name_int_def type_imm_def name_imm_def)
  from o obtain r where r: "run_state ?c demo_ast = Some r" and "out r \<noteq> []"
    by (cases "run_state ?c demo_ast") auto
  with t [THEN conjunct1] have v: "run ?c demo_ast = Some False" by simp
  have o1: "map_option out (run_state (demo_collab sub True demo_function) demo_ok_ast) = Some []" for sub
    by (simp add: run_state_def demo_ok_ast_def Infer_init_def demo_defs
         post_Ref_def post_Assign_def post_Int_def make_constant_type_def
         parent_def lhs_def g_def subtype_def Let_def)
  have o2: "map_option (subtype_ok (demo_collab sub True demo_function) \<circ> subtype_st)
      (run_state (demo_collab sub True demo_function) demo_ok_ast) = Some sub" for sub
    by (simp add: run_state_def demo_ok_ast_def Infer_init_def demo_defs
         post_Ref_def post_Assign_def post_Int_def make_constant_type_def
         parent_def lhs_def g_def subtype_def Let_def)
  from o1 [of True] o2 [of True] C4_run [of ?c demo_ok_ast, THEN conjunct1]
  have v1: "run ?c demo_ok_ast = Some True"
    by (cases "run_state ?c demo_ok_ast") auto
  from o1 [of False] o2 [of False]
    C4_run [of "demo_collab False True demo_function" demo_ok_ast, THEN conjunct1]
  have v2: "run (demo_collab False True demo_function) demo_ok_ast = Some False"
    by (cases "run_state (demo_collab False True demo_function) demo_ok_ast") auto
  have p: "post ?c (demo_right_of ''w'') (Ref ''x'') demo_infer
       = Some (error (use_before_assign ''x'')
           (snd (subtype ?c (Some (InferType ''x'' 0)) (Some (InferType ''w'' 3)) demo_infer)))"
  proof -
    have pa: "parent (demo_right_of ''w'')
        = Some (Assign \<lparr>e_addr = 1, e_location = ''w''\<rparr> \<lparr>e_addr = 2, e_location = ''rhs''\<rparr>)"
      by (simp add: parent_def demo_right_of_def demo_assign_def)
    have cu: "current (demo_right_of ''w'') = 2" by (simp add: demo_right_of_def)
    show ?thesis
      by (simp add: post_Ref_def pa cu demo_g post_Ref_check_def demo_x_def demo_w_def)
  qed
  from t p have a: "accumulates demo_infer
       (error (use_before_assign ''x'')
           (snd (subtype ?c (Some (InferType ''x'' 0)) (Some (InferType ''w'' 3)) demo_infer)))"
    by blast
  have w: "same_work demo_infer (error [] demo_infer)"
    by (simp add: same_work_def error_def)
  from t w have "rel_option same_work (walk (post ?c) [] (ast_root demo_ast) demo_infer)
       (walk (post ?c) [] (ast_root demo_ast) (error [] demo_infer))"
    by blast
  with v v1 v2 o1 [of False] o k p a w bt bf bo bk ho lo hv show ?thesis by simp
qed

subsection \<open>C5: assignment\<close>

text \<open>
  C5. For every \<^verbatim>\<open>Assign\<close> node, with \<open>l\<close> the local named by its left
  child: if \<open>l\<close> is a \<^verbatim>\<open>Let\<close> whose \<open>assigned\<close> flag is already true,
  an error is recorded, and the local stays as it is (the flag stays true and
  is not written); otherwise (\<open>l\<close> is a \<^verbatim>\<open>Var\<close>, or a \<^verbatim>\<open>Let\<close>
  with \<open>assigned\<close> false) the flag is set to true and no error is recorded.
\<close>

theorem C5_post_Assign:
  assumes "g cx st (e_location left) = Some l"
  shows "(l_kind l = KLet \<and> l_assigned l \<longrightarrow>
            post_Assign cx left right st = Some (error (already_assigned left right) st)
          \<and> symtab (error (already_assigned left right) st) = symtab st
          \<and> new_out st (error (already_assigned left right) st) = [already_assigned left right]
          \<and> \<not> ok (error (already_assigned left right) st))
       \<and> (l_kind l = KVar \<or> (l_kind l = KLet \<and> \<not> l_assigned l) \<longrightarrow>
            (\<exists>st'. post_Assign cx left right st = Some st'
               \<and> g cx st' (e_location left) = Some (l\<lparr>l_assigned := True\<rparr>)
               \<and> ok st' = ok st \<and> out st' = out st))"
  using assms by (auto simp add: post_Assign_def error_def g_def new_out_def)

theorem C5_post_Assign_witness:
  "g (demo_right_of ''z'') demo_infer ''z'' = Some demo_z
   \<and> l_kind demo_z = KLet \<and> l_assigned demo_z
   \<and> map_option out (post_Assign (demo_right_of ''z'') \<lparr>e_addr = 1, e_location = ''z''\<rparr>
        \<lparr>e_addr = 2, e_location = ''rhs''\<rparr> demo_infer)
       = Some [[Loc ''rhs'', Str ''This expression can't be assigned'', Text ''rhs'', Loc ''z'',
                Str ''This local has already been assigned to'', Text ''z'']]
   \<and> g (demo_right_of ''x'') demo_infer ''x'' = Some demo_x
   \<and> l_kind demo_x = KLet \<and> \<not> l_assigned demo_x
   \<and> post_Assign (demo_right_of ''x'') \<lparr>e_addr = 1, e_location = ''x''\<rparr>
        \<lparr>e_addr = 2, e_location = ''rhs''\<rparr> demo_infer \<noteq> None
   \<and> g (demo_right_of ''x'')
        (the (post_Assign (demo_right_of ''x'') \<lparr>e_addr = 1, e_location = ''x''\<rparr>
           \<lparr>e_addr = 2, e_location = ''rhs''\<rparr> demo_infer)) ''x''
       = Some (demo_x\<lparr>l_assigned := True\<rparr>)
   \<and> out (the (post_Assign (demo_right_of ''x'') \<lparr>e_addr = 1, e_location = ''x''\<rparr>
           \<lparr>e_addr = 2, e_location = ''rhs''\<rparr> demo_infer)) = []"
proof -
  have hz: "g (demo_right_of ''z'') demo_infer (e_location \<lparr>e_addr = 1, e_location = ''z''\<rparr>)
              = Some demo_z"
    by (simp add: demo_g)
  have kz: "l_kind demo_z = KLet \<and> l_assigned demo_z" by (simp add: demo_z_def)
  have hx: "g (demo_right_of ''x'') demo_infer (e_location \<lparr>e_addr = 1, e_location = ''x''\<rparr>)
              = Some demo_x"
    by (simp add: demo_g)
  have kx: "l_kind demo_x = KLet \<and> \<not> l_assigned demo_x" by (simp add: demo_x_def)
  from C5_post_Assign [OF hz, of "\<lparr>e_addr = 2, e_location = ''rhs''\<rparr>"] kz
  have z: "post_Assign (demo_right_of ''z'') \<lparr>e_addr = 1, e_location = ''z''\<rparr>
        \<lparr>e_addr = 2, e_location = ''rhs''\<rparr> demo_infer
      = Some (error (already_assigned \<lparr>e_addr = 1, e_location = ''z''\<rparr>
                \<lparr>e_addr = 2, e_location = ''rhs''\<rparr>) demo_infer)"
    by blast
  from C5_post_Assign [OF hx, of "\<lparr>e_addr = 2, e_location = ''rhs''\<rparr>"] kx
  obtain st' where x: "post_Assign (demo_right_of ''x'') \<lparr>e_addr = 1, e_location = ''x''\<rparr>
        \<lparr>e_addr = 2, e_location = ''rhs''\<rparr> demo_infer = Some st'"
    and gx: "g (demo_right_of ''x'') st' (e_location \<lparr>e_addr = 1, e_location = ''x''\<rparr>)
        = Some (demo_x\<lparr>l_assigned := True\<rparr>)"
    and ox: "out st' = out demo_infer"
    by blast
  from z x gx ox hz kz hx kx show ?thesis
    by (simp add: error_def already_assigned_def demo_infer_def)
qed

subsection \<open>C6: the use of a local\<close>

text \<open>
  C6. For every \<^verbatim>\<open>Ref\<close> node naming a local \<open>l\<close>, with \<open>p\<close> its
  parent: if \<open>p\<close> is an \<^verbatim>\<open>Oftype\<close> node, or the \<^verbatim>\<open>Ref\<close> is the
  left child of the \<^verbatim>\<open>Assign\<close> \<open>p\<close>, the handler returns having
  recorded nothing, whatever \<open>l.assigned\<close> is; in every other position the
  diagnostic "Variable used before assignment" is among those the handler
  records if and only if \<open>l.assigned\<close> is false. In those positions the
  handler returns whenever the locals it reads exist and the result type of a
  parent \<^verbatim>\<open>Lambda\<close> is present.
\<close>

theorem C6_post_Ref:
  assumes "parent cx = Some p"
  shows "(kind p = KOftype \<longrightarrow> post_Ref c cx ref st = Some st)
       \<and> (\<forall>left right. p = Assign left right \<and> e_addr left = current cx \<longrightarrow>
             post_Ref c cx ref st = Some st)
       \<and> (kind p \<noteq> KOftype \<and> \<not> (\<exists>left right. p = Assign left right \<and> e_addr left = current cx) \<longrightarrow>
            (\<forall>st'. post_Ref c cx ref st = Some st' \<longrightarrow>
               (\<exists>l. g cx st ref = Some l \<and>
                  (use_before_assign ref \<in> set (new_out st st') \<longleftrightarrow> \<not> l_assigned l)))
          \<and> (g cx st ref \<noteq> None
               \<and> (\<forall>left right. p = Assign left right \<longrightarrow> g cx st (e_location left) \<noteq> None)
               \<and> (\<forall>lam. p = Lambda lam \<longrightarrow> lam_result lam \<noteq> None)
             \<longrightarrow> post_Ref c cx ref st \<noteq> None))"
  using assms
  by (cases p)
     (auto simp add: post_Ref_def post_Ref_check_def error_def subtype_def new_out_def
        use_before_assign_def Let_def split: option.splits if_splits)

theorem C6_post_Ref_witness:
  "parent (demo_at (Oftype \<lparr>e_addr = 2, e_location = ''x''\<rparr> (Some demo_U64)))
     = Some (Oftype \<lparr>e_addr = 2, e_location = ''x''\<rparr> (Some demo_U64))
   \<and> post_Ref (demo_collab True True demo_none)
        (demo_at (Oftype \<lparr>e_addr = 2, e_location = ''x''\<rparr> (Some demo_U64))) ''x'' demo_infer
       = Some demo_infer
   \<and> parent (demo_left_of ''x'') = Some (demo_assign ''x'')
   \<and> post_Ref (demo_collab True True demo_none) (demo_left_of ''x'') ''x'' demo_infer
       = Some demo_infer
   \<and> parent (demo_right_of ''w'') = Some (demo_assign ''w'')
   \<and> g (demo_right_of ''w'') demo_infer ''x'' = Some demo_x \<and> \<not> l_assigned demo_x
   \<and> post_Ref (demo_collab True True demo_none) (demo_right_of ''w'') ''x'' demo_infer \<noteq> None
   \<and> use_before_assign ''x'' \<in> set (new_out demo_infer
        (the (post_Ref (demo_collab True True demo_none) (demo_right_of ''w'') ''x'' demo_infer)))
   \<and> g (demo_right_of ''w'') demo_infer ''z'' = Some demo_z \<and> l_assigned demo_z
   \<and> post_Ref (demo_collab True True demo_none) (demo_right_of ''w'') ''z'' demo_infer \<noteq> None
   \<and> use_before_assign ''z'' \<notin> set (new_out demo_infer
        (the (post_Ref (demo_collab True True demo_none) (demo_right_of ''w'') ''z'' demo_infer)))"
proof -
  let ?c = "demo_collab True True demo_none"
  let ?o = "Oftype \<lparr>e_addr = 2, e_location = ''x''\<rparr> (Some demo_U64)"
  have po: "parent (demo_at ?o) = Some ?o" by (simp add: parent_def demo_at_def)
  have pl: "parent (demo_left_of ''x'') = Some (demo_assign ''x'')"
    by (simp add: parent_def demo_left_of_def)
  have pr: "parent (demo_right_of ''w'') = Some (demo_assign ''w'')"
    by (simp add: parent_def demo_right_of_def)
  have o: "post_Ref ?c (demo_at ?o) ''x'' demo_infer = Some demo_infer"
    using C6_post_Ref [OF po, of ?c "''x''" demo_infer] by simp
  have l: "post_Ref ?c (demo_left_of ''x'') ''x'' demo_infer = Some demo_infer"
    using C6_post_Ref [OF pl, of ?c "''x''" demo_infer]
    by (simp add: demo_assign_def demo_left_of_def)
  have other: "kind (demo_assign ''w'') \<noteq> KOftype
      \<and> \<not> (\<exists>left right. demo_assign ''w'' = Assign left right
              \<and> e_addr left = current (demo_right_of ''w''))"
    by (simp add: demo_assign_def demo_right_of_def)
  have gx: "g (demo_right_of ''w'') demo_infer ''x'' = Some demo_x" by (rule demo_g)
  have gz: "g (demo_right_of ''w'') demo_infer ''z'' = Some demo_z" by (rule demo_g)
  have gw: "g (demo_right_of ''w'') demo_infer ''w'' = Some demo_w" by (rule demo_g)
  have total: "\<forall>left right. demo_assign ''w'' = Assign left right \<longrightarrow>
      g (demo_right_of ''w'') demo_infer (e_location left) \<noteq> None"
    by (simp add: demo_assign_def gw)
  have nolam: "\<forall>lam. demo_assign ''w'' = Lambda lam \<longrightarrow> lam_result lam \<noteq> None"
    by (simp add: demo_assign_def)
  have ax: "\<not> l_assigned demo_x" by (simp add: demo_x_def)
  have az: "l_assigned demo_z" by (simp add: demo_z_def)
  note tx = C6_post_Ref [OF pr, of ?c "''x''" demo_infer]
  note tz = C6_post_Ref [OF pr, of ?c "''z''" demo_infer]
  from tx other gx total nolam
  have rx: "post_Ref ?c (demo_right_of ''w'') ''x'' demo_infer \<noteq> None" by simp
  then obtain sx where sx: "post_Ref ?c (demo_right_of ''w'') ''x'' demo_infer = Some sx" by blast
  from tx other sx gx ax have ux: "use_before_assign ''x'' \<in> set (new_out demo_infer sx)"
    by simp
  from tz other gz total nolam
  have rz: "post_Ref ?c (demo_right_of ''w'') ''z'' demo_infer \<noteq> None" by simp
  then obtain sz where sz: "post_Ref ?c (demo_right_of ''w'') ''z'' demo_infer = Some sz" by blast
  from tz other sz gz az have uz: "use_before_assign ''z'' \<notin> set (new_out demo_infer sz)"
    by simp
  from po pl pr o l gx gz ax az rx rz sx sz ux uz show ?thesis by simp
qed

subsection \<open>C7: the function type of a call\<close>

text \<open>
  C7. For every \<^verbatim>\<open>Select\<close> node, the call function type is built as
  \<open>(argtypes) \<rightarrow> g(lhs).type\<close>: if exactly one of \<open>expr\<close>/\<open>args\<close> is
  present, the type of that local is the whole argument side; if both are
  present, the argument side is a \<^verbatim>\<open>TupleType\<close> of the component types
  of the first local's type followed by those of the second, a tuple type
  being flattened into its components. Here \<open>l\<close> is the local on the left of
  the enclosing assignment, and the locals named by the operands exist, with
  a type each where both are present.
\<close>

theorem C7_call_type:
  assumes "lhs cx = Some n" and "g cx st n = Some l"
  shows
   "(\<forall>e le. g cx st (e_location e) = Some le \<longrightarrow>
        call_type cx st (Some e) None = Some (FunctionType [] (l_type le) (l_type l))
      \<and> call_type cx st None (Some e) = Some (FunctionType [] (l_type le) (l_type l)))
  \<and> (\<forall>e a le la lt rt. g cx st (e_location e) = Some le \<and> g cx st (e_location a) = Some la
         \<and> l_type le = Some lt \<and> l_type la = Some rt \<longrightarrow>
        call_type cx st (Some e) (Some a) =
          Some (FunctionType []
                 (Some (TupleType (t_location lt) (components lt @ components rt))) (l_type l)))"
  using assms by (simp add: call_type_def call_left_def unpack_type_components)

theorem C7_call_type_witness:
  "lhs (demo_right_of ''x'') = Some ''x'' \<and> g (demo_right_of ''x'') demo_infer ''x'' = Some demo_x
   \<and> g (demo_right_of ''x'') demo_infer ''z'' = Some demo_z
   \<and> g (demo_right_of ''x'') demo_infer ''y'' = Some demo_y
   \<and> l_type demo_z = Some demo_U64
   \<and> l_type demo_y = Some (TupleType ''y'' [Some (InferType ''a'' 1), Some (InferType ''b'' 2)])
   \<and> call_type (demo_right_of ''x'') demo_infer (Some \<lparr>e_addr = 3, e_location = ''z''\<rparr>) None
       = Some (FunctionType [] (Some demo_U64) (Some (InferType ''x'' 0)))
   \<and> call_type (demo_right_of ''x'') demo_infer None (Some \<lparr>e_addr = 3, e_location = ''z''\<rparr>)
       = Some (FunctionType [] (Some demo_U64) (Some (InferType ''x'' 0)))
   \<and> call_type (demo_right_of ''x'') demo_infer (Some \<lparr>e_addr = 3, e_location = ''z''\<rparr>)
         (Some \<lparr>e_addr = 4, e_location = ''y''\<rparr>)
       = Some (FunctionType []
           (Some (TupleType ''U64'' [Some demo_U64, Some (InferType ''a'' 1), Some (InferType ''b'' 2)]))
           (Some (InferType ''x'' 0)))"
proof -
  have h1: "lhs (demo_right_of ''x'') = Some ''x''" by (rule demo_lhs)
  have h2: "g (demo_right_of ''x'') demo_infer ''x'' = Some demo_x" by (rule demo_g)
  have h3: "g (demo_right_of ''x'') demo_infer
              (e_location \<lparr>e_addr = 3, e_location = ''z''\<rparr>) = Some demo_z"
    by (simp add: demo_g)
  have h4: "g (demo_right_of ''x'') demo_infer
              (e_location \<lparr>e_addr = 4, e_location = ''y''\<rparr>) = Some demo_y"
    by (simp add: demo_g)
  have h5: "l_type demo_z = Some demo_U64" by (simp add: demo_z_def)
  have h6: "l_type demo_y = Some (TupleType ''y'' [Some (InferType ''a'' 1), Some (InferType ''b'' 2)])"
    by (simp add: demo_y_def)
  note t = C7_call_type [OF h1 h2]
  from t h3 have one:
    "call_type (demo_right_of ''x'') demo_infer (Some \<lparr>e_addr = 3, e_location = ''z''\<rparr>) None
       = Some (FunctionType [] (l_type demo_z) (l_type demo_x))
     \<and> call_type (demo_right_of ''x'') demo_infer None (Some \<lparr>e_addr = 3, e_location = ''z''\<rparr>)
       = Some (FunctionType [] (l_type demo_z) (l_type demo_x))"
    by blast
  from t h3 h4 h5 h6 have both:
    "call_type (demo_right_of ''x'') demo_infer (Some \<lparr>e_addr = 3, e_location = ''z''\<rparr>)
         (Some \<lparr>e_addr = 4, e_location = ''y''\<rparr>)
       = Some (FunctionType []
           (Some (TupleType (t_location demo_U64)
              (components demo_U64 @
               components (TupleType ''y'' [Some (InferType ''a'' 1), Some (InferType ''b'' 2)]))))
           (l_type demo_x))"
    by blast
  from one both h1 h2 h3 h4 h5 h6 show ?thesis
    by (simp add: components_def demo_U64_def demo_x_def)
qed

subsection \<open>C8: the constraints of a resolved reference\<close>



subsection \<open>C9: the validator after the pass\<close>

text \<open>
  C9. For every AST, \<^verbatim>\<open>wellformed(ast, error_stream)\<close> records no
  diagnostic for any remaining \<^verbatim>\<open>InferType\<close> node (the handler of such
  a node leaves the pass as it is) and therefore returns true: the traversal
  ends in the state it began in, with an empty stream.
\<close>

theorem C9_wellformed:
  "WF_post cx (TypeNode (InferType l n)) p = Some p
   \<and> wellformed_state ast = Some WF_init
   \<and> map_option out (wellformed_state ast) = Some []
   \<and> wellformed ast = Some True"
proof -
  have "walk WF_post [] (ast_root ast) WF_init = Some WF_init"
    by (rule walk_id) (rule WF_post_id)
  then show ?thesis
    by (simp add: wellformed_def wellformed_state_def WF_init_def)
qed

theorem C9_wellformed_witness:
  "wellformed demo_wf_ast = Some True \<and> map_option out (wellformed_state demo_wf_ast) = Some []"
  using C9_wellformed [of "demo_right_of ''x''" "''x''" 0 WF_init demo_wf_ast]
  by (simp add: WF_init_def)

subsection \<open>C10: a literal whose nominal type is not in scope\<close>

text \<open>
  C10. At an \<^verbatim>\<open>Int\<close>, \<^verbatim>\<open>Float\<close> or \<^verbatim>\<open>Bool\<close> literal node
  whose nominal type (\<open>Integer\<close>, \<open>Float\<close> or \<open>Bool\<close>) fails lookup in the
  current scope, the handler records exactly one "No type ... in scope."
  error and returns without emitting any subtype constraint: the state it
  returns is the state it was given with that one diagnostic added, so the
  locals and the state of the solver are as before.
\<close>

theorem C10_literal_not_in_scope:
  "(\<not> in_scope c cx st ''Integer'' \<longrightarrow>
      post_Int c cx i st = Some (error [Loc i, Str ''No type Integer in scope.'', Text i] st))
   \<and> (\<not> in_scope c cx st ''Float'' \<longrightarrow>
      post_Float c cx i st = Some (error [Loc i, Str ''No type Float in scope.'', Text i] st))
   \<and> (\<not> in_scope c cx st ''Bool'' \<longrightarrow>
      post_Bool c cx i st = Some (error [Loc i, Str ''No type Bool in scope.'', Text i] st))
   \<and> new_out st (error d st) = [d] \<and> new_calls st (error d st) = []
   \<and> symtab (error d st) = symtab st \<and> subtype_st (error d st) = subtype_st st"
  by (simp add: post_Int_def post_Float_def post_Bool_def make_constant_type_eq
        name_int_def name_float_def name_bool_def no_type_def error_def new_out_def new_calls_def)

theorem C10_literal_not_in_scope_witness:
  "\<not> in_scope (demo_collab True True demo_none) (demo_right_of ''x'') demo_infer ''Integer''
   \<and> \<not> in_scope (demo_collab True True demo_none) (demo_right_of ''x'') demo_infer ''Float''
   \<and> \<not> in_scope (demo_collab True True demo_none) (demo_right_of ''x'') demo_infer ''Bool''
   \<and> map_option out (post_Int (demo_collab True True demo_none) (demo_right_of ''x'') ''3'' demo_infer)
       = Some [[Loc ''3'', Str ''No type Integer in scope.'', Text ''3'']]
   \<and> map_option calls (post_Int (demo_collab True True demo_none) (demo_right_of ''x'') ''3'' demo_infer)
       = Some []
   \<and> map_option out (post_Float (demo_collab True True demo_none) (demo_right_of ''x'') ''3.0'' demo_infer)
       = Some [[Loc ''3.0'', Str ''No type Float in scope.'', Text ''3.0'']]
   \<and> map_option calls (post_Float (demo_collab True True demo_none) (demo_right_of ''x'') ''3.0'' demo_infer)
       = Some []
   \<and> map_option out (post_Bool (demo_collab True True demo_none) (demo_right_of ''x'') ''true'' demo_infer)
       = Some [[Loc ''true'', Str ''No type Bool in scope.'', Text ''true'']]
   \<and> map_option calls (post_Bool (demo_collab True True demo_none) (demo_right_of ''x'') ''true'' demo_infer)
       = Some []"
proof -
  let ?c = "demo_collab True True demo_none"
  let ?cx = "demo_right_of ''x''"
  have h: "\<not> in_scope ?c ?cx demo_infer ''Integer''" "\<not> in_scope ?c ?cx demo_infer ''Float''"
    "\<not> in_scope ?c ?cx demo_infer ''Bool''"
    by (simp_all add: in_scope_def demo_collab_def demo_none_def)
  from h C10_literal_not_in_scope [of ?c ?cx demo_infer "''3''"]
  have i: "post_Int ?c ?cx ''3'' demo_infer
      = Some (error [Loc ''3'', Str ''No type Integer in scope.'', Text ''3''] demo_infer)"
    by blast
  from h C10_literal_not_in_scope [of ?c ?cx demo_infer "''3.0''"]
  have f: "post_Float ?c ?cx ''3.0'' demo_infer
      = Some (error [Loc ''3.0'', Str ''No type Float in scope.'', Text ''3.0''] demo_infer)"
    by blast
  from h C10_literal_not_in_scope [of ?c ?cx demo_infer "''true''"]
  have b: "post_Bool ?c ?cx ''true'' demo_infer
      = Some (error [Loc ''true'', Str ''No type Bool in scope.'', Text ''true''] demo_infer)"
    by blast
  from h i f b show ?thesis by (simp add: error_def demo_infer_def)
qed

end
